theory Spec2Isabelle
  imports Main "HOL-Library.Char_ord" "HOL-Library.List_Lexorder"
begin

section \<open>Cold VM launcher (Cold.cpp)\<close>

text \<open>
  A shallow embedding of \<^verbatim>\<open>src/source/Cold.cpp\<close>. The class \<^verbatim>\<open>ColdVM\<close> is a record;
  every member function takes the object and returns it updated. Everything the program
  does to the outside (console output, \<^verbatim>\<open>system\<close>, \<^verbatim>\<open>fork\<close>, \<^verbatim>\<open>kill\<close>, \<^verbatim>\<open>waitpid\<close>,
  \<^verbatim>\<open>sleep\<close>, filesystem writes) is appended, in program order, to a trace of events kept
  beside the object. Everything the outside answers (exit codes, directory listings,
  what \<^verbatim>\<open>fork\<close> returns, the text \<^verbatim>\<open>lsusb\<close> prints) is read from an environment record.
\<close>

subsection \<open>std::string operations\<close>

text \<open>\<^verbatim>\<open>s.find(needle)\<close>: the first position where \<open>needle\<close> occurs, \<open>None\<close> for \<^verbatim>\<open>npos\<close>.\<close>

primrec starts_with :: "string \<Rightarrow> string \<Rightarrow> bool" where
  "starts_with [] s = True"
| "starts_with (c # cs) s = (case s of [] \<Rightarrow> False | d # ds \<Rightarrow> c = d \<and> starts_with cs ds)"

primrec find_str :: "string \<Rightarrow> string \<Rightarrow> nat option" where
  "find_str [] needle = (if needle = [] then Some 0 else None)"
| "find_str (c # cs) needle =
     (if starts_with needle (c # cs) then Some 0 else map_option Suc (find_str cs needle))"

definition contains :: "string \<Rightarrow> string \<Rightarrow> bool" where
  \<comment> \<open>\<^verbatim>\<open>s.find(needle) != std::string::npos\<close>\<close>
  "contains s needle = (find_str s needle \<noteq> None)"

text \<open>
  \<^verbatim>\<open>s.substr(pos, n)\<close> and \<^verbatim>\<open>s.substr(pos)\<close> throw \<^verbatim>\<open>std::out_of_range\<close> when
  \<open>pos > s.size()\<close>; otherwise they return at most \<open>n\<close> characters from \<open>pos\<close> on.
\<close>

definition substr :: "string \<Rightarrow> nat \<Rightarrow> nat \<Rightarrow> string option" where
  "substr s pos n = (if pos > length s then None else Some (take n (drop pos s)))"

definition substr_from :: "string \<Rightarrow> nat \<Rightarrow> string option" where
  "substr_from s pos = (if pos > length s then None else Some (drop pos s))"

text \<open>\<^verbatim>\<open>s.find_last_not_of(chars)\<close>: the last position holding a character outside \<open>chars\<close>.\<close>

primrec find_last_not_of :: "string \<Rightarrow> string \<Rightarrow> nat option" where
  "find_last_not_of [] chars = None"
| "find_last_not_of (c # cs) chars =
     (case find_last_not_of cs chars of
        Some i \<Rightarrow> Some (Suc i)
      | None \<Rightarrow> (if c \<in> set chars then None else Some 0))"

text \<open>\<^verbatim>\<open>std::to_string\<close> on an integer: decimal digits, a minus sign when negative.\<close>

fun nat_to_string :: "nat \<Rightarrow> string" where
  "nat_to_string n =
     (if n < 10 then [''0123456789'' ! n]
      else nat_to_string (n div 10) @ [''0123456789'' ! (n mod 10)])"

declare nat_to_string.simps [simp del]

definition to_string :: "int \<Rightarrow> string" where
  "to_string i = (if i < 0 then CHR ''-'' # nat_to_string (nat (- i)) else nat_to_string (nat i))"

text \<open>Characters that cannot be written inside a string literal, and UTF-8 glyphs as bytes.\<close>

definition dquote :: string where "dquote = [CHR 0x22]"
definition squote :: string where "squote = [CHR 0x27]"
definition newline :: string where "newline = [CHR 0x0A]"
definition arrow :: string where "arrow = [CHR 0xE2, CHR 0x86, CHR 0x92]"
definition cross_mark :: string where "cross_mark = [CHR 0xE2, CHR 0x9C, CHR 0x97]"

subsection \<open>Events and the object\<close>

datatype severity = SevLog | SevWarning | SevDebug | SevError | SevSuccess

datatype event =
    Say severity string         \<comment> \<open>one call of log / warning / debug / error / success\<close>
  | Print string                \<comment> \<open>one statement writing text to std::cout\<close>
  | PrintErr string             \<comment> \<open>one statement writing text to std::cerr\<close>
  | PrintHeader                 \<comment> \<open>the boxed banner of printHeader\<close>
  | PrintReady                  \<comment> \<open>the boxed "VM is ready" banner of boot\<close>
  | System string               \<comment> \<open>system(cmd)\<close>
  | CreateDirectories string    \<comment> \<open>fs::create_directories(path), when it succeeds\<close>
  | CopyFile string string      \<comment> \<open>fs::copy_file(from, to), when it succeeds\<close>
  | WriteZeros string nat       \<comment> \<open>a file created and filled with that many zero bytes\<close>
  | Popen string                \<comment> \<open>popen(cmd, "r")\<close>
  | Fork int                    \<comment> \<open>fork(), with the value it returned in this process\<close>
  | Sleep nat
  | Kill int int                \<comment> \<open>kill(pid, sig)\<close>
  | Waitpid int                 \<comment> \<open>waitpid(pid, nullptr, 0)\<close>
  | InstallHandler int          \<comment> \<open>signal(sig, signalHandler)\<close>

definition SIGINT :: int where "SIGINT = 2"
definition SIGTERM :: int where "SIGTERM = 15"

record ColdVM =
  diskDir :: string
  romPath :: string
  firmwarePath :: string
  varsPath :: string
  noVNCPath :: string
  useVNC :: bool
  useBridge :: bool
  bridgeInterface :: string
  qemuPid :: int
  websockifyPid :: int
  diskFiles :: "string list"
  isoFiles :: "string list"
  cpuCores :: int
  ramGB :: int
  cpuModel :: string
  enableCamera :: bool
  enableAudio :: bool
  enableMicrophone :: bool

record world = ColdVM +
  trace :: "event list"

text \<open>The constructor \<^verbatim>\<open>ColdVM::ColdVM()\<close>, with an empty trace.\<close>

definition ColdVM_init :: world where
  "ColdVM_init =
     \<lparr> diskDir = ''./devices/disk'',
       romPath = ''./devices/rom'',
       firmwarePath = ''./boot/firmware/OVMF_CODE.fd'',
       varsPath = ''./boot/firmware/OVMF_VARS.fd'',
       noVNCPath = ''./libraries/noVNC'',
       useVNC = True,
       useBridge = True,
       bridgeInterface = ''virbr0'',
       qemuPid = - 1,
       websockifyPid = - 1,
       diskFiles = [],
       isoFiles = [],
       cpuCores = 4,
       ramGB = 4,
       cpuModel = ''host'',
       enableCamera = True,
       enableAudio = True,
       enableMicrophone = True,
       trace = [] \<rparr>"

definition emit :: "event \<Rightarrow> world \<Rightarrow> world" where
  "emit e w = w\<lparr>trace := trace w @ [e]\<rparr>"

definition log :: "string \<Rightarrow> world \<Rightarrow> world" where
  "log message w = emit (Say SevLog message) w"

definition warning :: "string \<Rightarrow> world \<Rightarrow> world" where
  "warning message w = emit (Say SevWarning message) w"

definition debug :: "string \<Rightarrow> world \<Rightarrow> world" where
  "debug message w = emit (Say SevDebug message) w"

definition error :: "string \<Rightarrow> world \<Rightarrow> world" where
  "error message w = emit (Say SevError message) w"

definition success :: "string \<Rightarrow> world \<Rightarrow> world" where
  "success message w = emit (Say SevSuccess message) w"

subsection \<open>The environment\<close>

text \<open>
  A directory as the scanner sees it: whether \<^verbatim>\<open>fs::exists(p) && fs::is_directory(p)\<close>
  holds, the names of its entries in the order \<^verbatim>\<open>fs::directory_iterator\<close> yields them
  (an order the standard leaves open), and, when the iteration throws
  \<^verbatim>\<open>fs::filesystem_error\<close>, after how many entries it does so and with which \<^verbatim>\<open>what()\<close>.
\<close>

record dir =
  is_directory :: bool
  entries :: "string list"
  iter_error :: "(nat \<times> string) option"

record env =
  system_rc :: "string \<Rightarrow> int"            \<comment> \<open>what system(cmd) returns\<close>
  path_exists :: "string \<Rightarrow> bool"         \<comment> \<open>fs::exists on the firmware, vars and noVNC paths\<close>
  mkdir_error :: "(nat \<times> string) option"  \<comment> \<open>the k-th fs::create_directories call throws\<close>
  disk_dir :: dir                         \<comment> \<open>the disk directory when boot begins\<close>
  disk_dir_after_create :: dir            \<comment> \<open>the disk directory once qemu-img create has run\<close>
  rom_dir :: dir
  copy_fails :: "string \<Rightarrow> bool"          \<comment> \<open>fs::copy_file from this source throws\<close>
  lsusb :: "string option"                \<comment> \<open>None: popen returned NULL; else what lsusb prints\<close>
  fork_qemu :: int                        \<comment> \<open>what the first fork() returns in this process\<close>
  fork_websockify :: int                  \<comment> \<open>what the second fork() returns in this process\<close>

text \<open>
  What ends the process abnormally: an exception nobody catches (\<^verbatim>\<open>std::terminate\<close>), or
  \<^verbatim>\<open>fork\<close> returning 0, in which case this process is the child and replaces itself by
  a program run on the given argument vector (or exits with 1 when \<^verbatim>\<open>exec\<close> fails).
\<close>

datatype abort = OutOfRange | ChildExec "string list"

type_synonym 'a result = "(abort \<times> world) + ('a \<times> world)"

subsection \<open>Checks\<close>

definition checkFile :: "env \<Rightarrow> string \<Rightarrow> string \<Rightarrow> world \<Rightarrow> bool \<times> world" where
  "checkFile e path name w =
     (if path_exists e path then (True, success (name @ '' found!'') w)
      else (False, warning (name @ '' not found at: '' @ path) w))"

definition checkCommand :: "env \<Rightarrow> string \<Rightarrow> string \<Rightarrow> world \<Rightarrow> bool \<times> world" where
  "checkCommand e cmd name w =
     (let checkCmd = ''which '' @ cmd @ '' > /dev/null 2>&1'';
          w1 = emit (System checkCmd) w
      in if system_rc e checkCmd = 0 then (True, success (name @ '' is available!'') w1)
         else (False, warning (name @ '' is not installed!'') w1))"

definition checkBridgeInterface :: "env \<Rightarrow> world \<Rightarrow> bool \<times> world" where
  "checkBridgeInterface e w =
     (let cmd = ''ip link show '' @ bridgeInterface w @ '' > /dev/null 2>&1'';
          w1 = emit (System cmd) w
      in if system_rc e cmd = 0
         then (True, success (''Bridge interface '' @ squote @ bridgeInterface w1 @ squote
                                @ '' is available!'') w1)
         else (let w2 = warning (''Bridge interface '' @ squote @ bridgeInterface w1 @ squote
                                   @ '' not found!'') w1;
                   w3 = warning ''Falling back to user networking (NAT)'' w2
               in (False, w3\<lparr>useBridge := False\<rparr>)))"

subsection \<open>Scanning for media\<close>

text \<open>\<^verbatim>\<open>s.rfind(c)\<close>: the last position of the character.\<close>

primrec rfind_char :: "string \<Rightarrow> char \<Rightarrow> nat option" where
  "rfind_char [] c = None"
| "rfind_char (d # ds) c =
     (case rfind_char ds c of
        Some i \<Rightarrow> Some (Suc i)
      | None \<Rightarrow> (if d = c then Some 0 else None))"

text \<open>
  \<^verbatim>\<open>path::extension()\<close> of a file name: empty for \<^verbatim>\<open>.\<close> and \<^verbatim>\<open>..\<close>, for a name without a
  period and for a name whose only period is its first character; otherwise the part
  from the last period on.
\<close>

definition extension :: "string \<Rightarrow> string" where
  "extension name =
     (if name = ''.'' \<or> name = ''..'' then []
      else case rfind_char name (CHR ''.'') of
             None \<Rightarrow> []
           | Some p \<Rightarrow> (if p = 0 then [] else drop p name))"

text \<open>\<^verbatim>\<open>fs::path(p).filename().string()\<close>: what follows the last slash.\<close>

definition filename :: "string \<Rightarrow> string" where
  "filename p = rev (takeWhile (\<lambda>c. c \<noteq> CHR ''/'') (rev p))"

definition is_disk_ext :: "string \<Rightarrow> bool" where
  "is_disk_ext ext =
     (ext = ''.qcow2'' \<or> ext = ''.img'' \<or> ext = ''.raw'' \<or> ext = ''.vdi'' \<or> ext = ''.vmdk'')"

definition is_iso_ext :: "string \<Rightarrow> bool" where
  "is_iso_ext ext = (ext = ''.iso'')"

text \<open>
  The body of the two range-for loops over a directory: the entries seen, the test on
  the extension, the debug label, and the list collected so far.
\<close>

primrec scan_loop ::
  "(string \<Rightarrow> bool) \<Rightarrow> string \<Rightarrow> string \<Rightarrow> string list \<Rightarrow> string list \<times> world \<Rightarrow> string list \<times> world"
where
  "scan_loop wanted d label [] acc = acc"
| "scan_loop wanted d label (n # ns) acc =
     (if wanted (extension n)
      then scan_loop wanted d label ns (fst acc @ [d @ ''/'' @ n], debug (label @ n) (snd acc))
      else scan_loop wanted d label ns acc)"

definition scan_dir ::
  "(string \<Rightarrow> bool) \<Rightarrow> string \<Rightarrow> string \<Rightarrow> string \<Rightarrow> dir \<Rightarrow> world \<Rightarrow> string list \<times> world" where
  "scan_dir wanted d label failure st w =
     (if is_directory st
      then (case iter_error st of
              None \<Rightarrow>
                (let r = scan_loop wanted d label (entries st) ([], w) in (sort (fst r), snd r))
            | Some (k, what) \<Rightarrow>
                (if k < length (entries st)
                 then (let r = scan_loop wanted d label (take k (entries st)) ([], w)
                       in (fst r, error (failure @ what) (snd r)))
                 else (let r = scan_loop wanted d label (entries st) ([], w)
                       in (sort (fst r), snd r))))
      else ([], w))"

definition findAllDisks :: "dir \<Rightarrow> world \<Rightarrow> string list \<times> world" where
  "findAllDisks st w =
     (let w1 = debug ''Scanning for disk images...'' w
      in scan_dir is_disk_ext (diskDir w1) ''Found disk: '' ''Failed to scan disk directory: '' st w1)"

definition findAllISOs :: "dir \<Rightarrow> world \<Rightarrow> string list \<times> world" where
  "findAllISOs st w =
     (let w1 = debug ''Scanning for ISO files...'' w
      in scan_dir is_iso_ext (romPath w1) ''Found ISO: '' ''Failed to scan ROM directory: '' st w1)"

subsection \<open>Creating what is missing\<close>

definition createDirectories :: "env \<Rightarrow> world \<Rightarrow> world" where
  "createDirectories e w =
     (let w1 = debug ''Creating required directories...'' w;
          paths = [diskDir w1, romPath w1, ''./boot/firmware'', ''./libraries''];
          made = (\<lambda>ps. foldl (\<lambda>v p. emit (CreateDirectories p) v) w1 ps)
      in case mkdir_error e of
           None \<Rightarrow> success ''Directory structure created!'' (made paths)
         | Some (k, what) \<Rightarrow>
             (if k < length paths
              then error (''Failed to create directories: '' @ what) (made (take k paths))
              else success ''Directory structure created!'' (made paths)))"

text \<open>\<^verbatim>\<open>fs::exists(diskDir + "/" + name)\<close>, read off the directory's state.\<close>

definition entry_exists :: "dir \<Rightarrow> string \<Rightarrow> bool" where
  "entry_exists st name = (is_directory st \<and> name \<in> set (entries st))"

text \<open>
  \<open>createDefaultDisk\<close> takes the state of the disk directory and returns the state after
  the call: unchanged when it runs no command, what the environment says once
  \<^verbatim>\<open>qemu-img create\<close> has run.
\<close>

definition createDefaultDisk :: "env \<Rightarrow> dir \<Rightarrow> world \<Rightarrow> bool \<times> dir \<times> world" where
  "createDefaultDisk e st w =
     (if \<not> entry_exists st ''disk.qcow2''
      then (let defaultDiskPath = diskDir w @ ''/disk.qcow2'';
                w1 = log ''Creating default 30GB disk image...'' w;
                cmd = ''qemu-img create -f qcow2 '' @ dquote @ defaultDiskPath @ dquote @ '' 30G 2>&1'';
                w2 = emit (System cmd) w1
            in if system_rc e cmd = 0
               then (True, disk_dir_after_create e, success ''Default disk created successfully!'' w2)
               else (False, disk_dir_after_create e, error ''Failed to create default disk!'' w2))
      else (True, st, w))"

definition varsSources :: "string list" where
  "varsSources =
     [''/usr/share/OVMF/OVMF_VARS.fd'',
      ''/usr/share/edk2-ovmf/x64/OVMF_VARS.fd'',
      ''/usr/share/qemu/OVMF_VARS.fd'']"

text \<open>The loop over the template locations: \<open>True\<close> when one was copied (the early return).\<close>

primrec copy_vars :: "env \<Rightarrow> string list \<Rightarrow> world \<Rightarrow> bool \<times> world" where
  "copy_vars e [] w = (False, w)"
| "copy_vars e (source # rest) w =
     (if path_exists e source
      then (if copy_fails e source
            then copy_vars e rest (debug (''Failed to copy from '' @ source) w)
            else (True, success ''OVMF VARS file created from system template!''
                          (emit (CopyFile source (varsPath w)) w)))
      else copy_vars e rest w)"

definition createVarsFile :: "env \<Rightarrow> world \<Rightarrow> bool \<times> world" where
  "createVarsFile e w =
     (if \<not> path_exists e (varsPath w)
      then (let w1 = log ''Creating OVMF VARS file...'' w;
                r = copy_vars e varsSources w1
            in if fst r then (True, snd r)
               else (let w2 = warning ''Creating empty OVMF VARS file (not recommended)'' (snd r);
                         w3 = emit (WriteZeros (varsPath w2) (64 * 1024 * 1024)) w2
                     in (True, w3)))
      else (True, w))"

subsection \<open>buildQEMUCommand\<close>

text \<open>
  The source's \<^verbatim>\<open>buildQEMUCommand\<close> is one function of commented blocks. Each block
  that branches or loops is a definition of its own here, taking and returning the
  argument vector built so far together with the object; \<open>buildQEMUCommand\<close> runs them in
  the source's order.
\<close>

definition build_firmware :: "env \<Rightarrow> string list \<times> world \<Rightarrow> string list \<times> world" where
  "build_firmware e cw =
     (let cmd = fst cw; w = snd cw
      in if path_exists e (firmwarePath w)
         then (let cmd1 = cmd @ [''-drive'',
                                 ''if=pflash,format=raw,readonly=on,file='' @ firmwarePath w];
                   r = createVarsFile e w
               in if fst r
                  then (cmd1 @ [''-drive'', ''if=pflash,format=raw,file='' @ varsPath (snd r)], snd r)
                  else (cmd1, snd r))
         else (cmd, w))"

text \<open>The format chosen for one disk path (lines 267 to 276 of the source).\<close>

definition disk_format :: "string \<Rightarrow> string" where
  "disk_format diskPath =
     (if contains diskPath ''.img'' \<or> contains diskPath ''.raw'' then ''raw''
      else if contains diskPath ''.vdi'' then ''vdi''
      else if contains diskPath ''.vmdk'' then ''vmdk''
      else ''qcow2'')"

primrec disks_loop :: "nat \<Rightarrow> string list \<Rightarrow> string list \<times> world \<Rightarrow> string list \<times> world" where
  "disks_loop i [] cw = cw"
| "disks_loop i (diskPath # rest) cw =
     (let bootFlag = (if i = 0 then '' [PRIMARY BOOT]'' else [])
      in disks_loop (Suc i) rest
           (fst cw @ [''-drive'',
                      ''file='' @ diskPath @ '',format='' @ disk_format diskPath
                        @ '',if=virtio,cache=writeback''],
            log (''  '' @ arrow @ '' '' @ filename diskPath @ bootFlag) (snd cw)))"

definition build_disks :: "string list \<times> world \<Rightarrow> string list \<times> world" where
  "build_disks cw =
     (let cmd = fst cw; w = snd cw
      in if diskFiles w \<noteq> []
         then disks_loop 0 (diskFiles w)
                (cmd, log (''Attaching '' @ to_string (int (length (diskFiles w))) @ '' disk(s):'') w)
         else (cmd, w))"

primrec isos_loop :: "nat \<Rightarrow> string list \<Rightarrow> string list \<times> world \<Rightarrow> string list \<times> world" where
  "isos_loop i [] cw = cw"
| "isos_loop i (isoPath # rest) cw =
     (if i = 0
      then isos_loop (Suc i) rest
             (fst cw @ [''-cdrom'', isoPath],
              log (''  '' @ arrow @ '' '' @ filename isoPath @ '' [CDROM - BOOT PRIORITY]'') (snd cw))
      else isos_loop (Suc i) rest
             (fst cw @ [''-drive'',
                        ''file='' @ isoPath @ '',media=cdrom,readonly=on,if=ide,index=''
                          @ to_string (int i)],
              log (''  '' @ arrow @ '' '' @ filename isoPath @ '' [CDROM '' @ to_string (int i) @ '']'')
                (snd cw)))"

definition build_isos :: "string list \<times> world \<Rightarrow> string list \<times> world" where
  "build_isos cw =
     (let cmd = fst cw; w = snd cw
      in if isoFiles w \<noteq> []
         then isos_loop 0 (isoFiles w)
                (cmd, log (''Attaching '' @ to_string (int (length (isoFiles w))) @ '' ISO(s):'') w)
         else (cmd, w))"

definition build_audio :: "string list \<times> world \<Rightarrow> string list \<times> world" where
  "build_audio cw =
     (let cmd = fst cw; w = snd cw
      in if enableAudio w
         then (let cmd1 = cmd @ [''-audiodev'', ''alsa,id=audio0'', ''-device'', ''intel-hda'']
               in if enableMicrophone w
                  then (cmd1 @ [''-device'', ''hda-duplex,audiodev=audio0''],
                        success ''Audio & Microphone enabled!'' w)
                  else (cmd1 @ [''-device'', ''hda-output,audiodev=audio0''],
                        warning ''Microphone is disabled!''
                          (success ''Audio enabled (no microphone)'' w)))
         else (cmd, warning ''Audio is disabled!'' w))"

definition build_network :: "string list \<times> world \<Rightarrow> string list \<times> world" where
  "build_network cw =
     (let cmd = fst cw; w = snd cw
      in if useBridge w
         then (cmd @ [''-netdev'', ''bridge,id=net0,br='' @ bridgeInterface w,
                      ''-device'', ''virtio-net-pci,netdev=net0,mac=52:54:00:12:34:56''],
               success (''Network: Bridge mode ('' @ bridgeInterface w @ '') with internet access!'') w)
         else (cmd @ [''-netdev'', ''user,id=net0'',
                      ''-device'', ''virtio-net-pci,netdev=net0''],
               success ''Network: NAT mode with internet access!'' w))"

text \<open>
  \<^verbatim>\<open>fgets(buffer, 256, pipe)\<close> on what is left of the stream: at most 255 characters, up
  to and including the first newline; the result is the buffer and the rest of the stream.
\<close>

fun fgets :: "nat \<Rightarrow> string \<Rightarrow> string \<times> string" where
  "fgets n [] = ([], [])"
| "fgets n (c # cs) =
     (if n = 0 then ([], c # cs)
      else if c = CHR 0x0A then ([c], cs)
      else (let r = fgets (n - 1) cs in (c # fst r, snd r)))"

datatype probe = NotFound | Thrown | Found string string string

definition is_camera_line :: "string \<Rightarrow> bool" where
  "is_camera_line line =
     (contains line ''Camera'' \<or> contains line ''Webcam'' \<or> contains line ''HD Webcam''
      \<or> contains line ''Integrated Camera'')"

text \<open>
  The body of the \<^verbatim>\<open>while\<close> loop on one line. \<open>NotFound\<close>: the loop goes on; \<open>Thrown\<close>: one
  of the three \<^verbatim>\<open>substr\<close> calls threw \<^verbatim>\<open>std::out_of_range\<close>; \<open>Found\<close>: the \<^verbatim>\<open>break\<close>, with
  vendor, product and name. \<^verbatim>\<open>line.find(ids) + 10\<close> is computed on \<^verbatim>\<open>size_t\<close>, where
  \<^verbatim>\<open>npos + 10\<close> wraps to 9. \<^verbatim>\<open>erase(find_last_not_of(...) + 1)\<close> keeps the characters up to
  the last one that is not white space, and none when there is no such character
  (\<^verbatim>\<open>npos + 1\<close> is 0).
\<close>

definition parse_camera_line :: "string \<Rightarrow> probe" where
  "parse_camera_line line =
     (if is_camera_line line
      then (case find_str line ''ID '' of
              None \<Rightarrow> NotFound
            | Some idPos \<Rightarrow>
                (case substr line (idPos + 3) 9 of
                   None \<Rightarrow> Thrown
                 | Some ids \<Rightarrow>
                     (case substr ids 0 4 of
                        None \<Rightarrow> Thrown
                      | Some cameraVendor \<Rightarrow>
                          (case substr ids 5 4 of
                             None \<Rightarrow> Thrown
                           | Some cameraProduct \<Rightarrow>
                               (let namePos = (case find_str line ids of
                                                 Some p \<Rightarrow> p + 10 | None \<Rightarrow> 9)
                                in case substr_from line namePos of
                                     None \<Rightarrow> Thrown
                                   | Some name \<Rightarrow>
                                       Found cameraVendor cameraProduct
                                         (case find_last_not_of name
                                                 [CHR '' '', CHR 0x0A, CHR 0x0D, CHR 0x09] of
                                            None \<Rightarrow> []
                                          | Some i \<Rightarrow> take (i + 1) name))))))
      else NotFound)"

text \<open>
  The \<^verbatim>\<open>while (fgets(...) != nullptr)\<close> loop over the text \<^verbatim>\<open>lsusb\<close> printed.
  \<^verbatim>\<open>std::string line(buffer)\<close> stops at the first NUL byte of the buffer.
\<close>

function camera_loop :: "string \<Rightarrow> probe" where
  "camera_loop s =
     (if s = [] then NotFound
      else (case parse_camera_line (takeWhile (\<lambda>c. c \<noteq> CHR 0x00) (fst (fgets 255 s))) of
              NotFound \<Rightarrow> camera_loop (snd (fgets 255 s))
            | Thrown \<Rightarrow> Thrown
            | Found v p n \<Rightarrow> Found v p n))"
  by pat_completeness auto
termination
proof (relation "measure length")
  show "wf (measure length)" by simp
next
  fix s :: string
  assume ne: "s \<noteq> []"
  have le: "length (snd (fgets n t)) \<le> length t" for n t
    by (induction n t rule: fgets.induct) (auto simp add: Let_def le_SucI)
  obtain c cs where s: "s = c # cs" using ne by (cases s) auto
  have "length (snd (fgets 255 (c # cs))) < length (c # cs)"
    using le [of 254 cs] by (simp add: Let_def)
  then show "(snd (fgets 255 s), s) \<in> measure length" using s by simp
qed

declare camera_loop.simps [simp del]

definition build_camera :: "env \<Rightarrow> string list \<times> world \<Rightarrow> string list result" where
  "build_camera e cw =
     (let cmd = fst cw; w = snd cw
      in if enableCamera w
         then (let w1 = emit (Popen ''lsusb 2>/dev/null'') (debug ''Detecting USB camera devices...'' w)
               in case lsusb e of
                    None \<Rightarrow> Inr (cmd, warning ''Could not execute lsusb to detect camera!'' w1)
                  | Some out \<Rightarrow>
                      (case camera_loop out of
                         Thrown \<Rightarrow> Inl (OutOfRange, w1)
                       | Found cameraVendor cameraProduct cameraName \<Rightarrow>
                           Inr (cmd @ [''-device'',
                                       ''usb-host,vendorid=0x'' @ cameraVendor @ '',productid=0x''
                                         @ cameraProduct],
                                debug (''Camera IDs: '' @ cameraVendor @ '':'' @ cameraProduct)
                                  (success (''Camera enabled: '' @ cameraName) w1))
                       | NotFound \<Rightarrow>
                           Inr (cmd, warning ''Make sure your camera is connected and working''
                                       (warning ''No camera device found! Camera disabled.'' w1))))
         else Inr (cmd, warning ''Camera is disabled!'' w))"

definition build_boot_order :: "string list \<times> world \<Rightarrow> string list \<times> world" where
  "build_boot_order cw =
     (let cmd = fst cw; w = snd cw
      in if isoFiles w \<noteq> [] then (cmd @ [''-boot'', ''order=dc,menu=on''], w)
         else (cmd @ [''-boot'', ''order=c,menu=on''], w))"

definition buildQEMUCommand :: "env \<Rightarrow> world \<Rightarrow> string list result" where
  "buildQEMUCommand e w =
     (let cmd = [''qemu-system-x86_64'', ''-enable-kvm'',
                 ''-cpu'', cpuModel w, ''-smp'', to_string (cpuCores w),
                 ''-m'', to_string (ramGB w) @ ''G'',
                 ''-vga'', ''virtio'', ''-display''];
          cmd1 = cmd @ (if useVNC w then [''none'', ''-vnc'', '':1''] else [''gtk,gl=on'']);
          cw2 = build_firmware e (cmd1, w);
          cw3 = build_disks cw2;
          cw4 = build_isos cw3;
          cw5 = build_audio cw4;
          cw6 = build_network cw5;
          cw7 = (fst cw6 @ [''-device'', ''qemu-xhci,id=xhci'', ''-device'', ''usb-tablet''], snd cw6)
      in case build_camera e cw7 of
           Inl a \<Rightarrow> Inl a
         | Inr cw8 \<Rightarrow>
             (let cw9 = (fst cw8 @ [''-rtc'', ''base=localtime,clock=host,driftfix=slew''], snd cw8);
                  cw10 = build_boot_order cw9
              in Inr (fst cw10 @ [''-machine'', ''type=q35,accel=kvm''], snd cw10)))"

subsection \<open>cleanup\<close>

definition cleanup :: "world \<Rightarrow> world" where
  "cleanup w =
     (let w1 = log ''Shutting down Cold VM...'' w;
          w2 = (if qemuPid w1 \<noteq> - 1
                then success ''QEMU stopped''
                       (emit (Waitpid (qemuPid w1)) (emit (Kill (qemuPid w1) SIGTERM) w1))
                else w1);
          w3 = (if websockifyPid w2 \<noteq> - 1
                then success ''Websockify stopped''
                       (emit (Waitpid (websockifyPid w2)) (emit (Kill (websockifyPid w2) SIGTERM) w2))
                else w2)
      in w3)"

text \<open>\<open>precedes a b tr\<close>: some occurrence of \<open>a\<close> in \<open>tr\<close> comes before some occurrence of \<open>b\<close>.\<close>

primrec precedes :: "'a \<Rightarrow> 'a \<Rightarrow> 'a list \<Rightarrow> bool" where
  "precedes a b [] = False"
| "precedes a b (x # xs) = ((x = a \<and> b \<in> set xs) \<or> precedes a b xs)"

subsection \<open>Starting the two children\<close>

definition startWebsockify :: "env \<Rightarrow> world \<Rightarrow> bool result" where
  "startWebsockify e w =
     (if \<not> useVNC w then Inr (True, w)
      else (let w1 = log ''Starting websockify for noVNC...'' w
            in if \<not> path_exists e (noVNCPath w1)
               then Inr (False, error (''noVNC directory not found at: '' @ noVNCPath w1) w1)
               else (let pid = fork_websockify e; w2 = emit (Fork pid) w1
                     in if pid = 0
                        then Inl (ChildExec [''sh'', ''-c'',
                                             ''websockify --web='' @ noVNCPath w2
                                               @ '' 8080 localhost:5901 2>&1''], w2)
                        else if pid > 0
                        then Inr (True, emit (Sleep 2) (w2\<lparr>websockifyPid := pid\<rparr>))
                        else Inr (False, error ''Failed to fork websockify process!'' w2))))"

definition startQEMU :: "env \<Rightarrow> world \<Rightarrow> bool result" where
  "startQEMU e w =
     (let w1 = log ''Starting QEMU virtual machine...'' w
      in case buildQEMUCommand e w1 of
           Inl a \<Rightarrow> Inl a
         | Inr (cmd, w2) \<Rightarrow>
             (let w3 = debug ''QEMU Command:'' w2;
                  fullCmd = concat (map (\<lambda>arg. arg @ '' '') cmd);
                  w4 = debug fullCmd w3;
                  pid = fork_qemu e;
                  w5 = emit (Fork pid) w4
              in if pid = 0 then Inl (ChildExec cmd, w5)
                 else if pid > 0 then Inr (True, emit (Sleep 3) (w5\<lparr>qemuPid := pid\<rparr>))
                 else Inr (False, error ''Failed to fork QEMU process!'' w5)))"

subsection \<open>boot\<close>

definition printHeader :: "world \<Rightarrow> world" where
  "printHeader w = emit PrintHeader w"

definition printConfiguration :: "env \<Rightarrow> world \<Rightarrow> world" where
  "printConfiguration e w =
     (let w1 = log ''System Configuration:'' w;
          w2 = emit (Print (''  '' @ arrow @ '' CPU: '' @ cpuModel w1 @ '' (''
                              @ to_string (cpuCores w1) @ '' cores)'' @ newline)) w1;
          w3 = emit (Print (''  '' @ arrow @ '' RAM: '' @ to_string (ramGB w2) @ '' GB'' @ newline)) w2;
          w4 = emit (Print (''  '' @ arrow @ '' VirtIO: Enabled'' @ newline)) w3;
          w5 = emit (Print (''  '' @ arrow @ '' OVMF/UEFI: ''
                              @ (if path_exists e (firmwarePath w4) then ''Enabled'' else ''Disabled'')
                              @ newline)) w4;
          w6 = emit (Print (''  '' @ arrow @ '' Display: ''
                              @ (if useVNC w5 then ''VNC (Remote)'' else ''GTK (Local)'')
                              @ newline)) w5
      in emit (Print newline) w6)"

text \<open>
  \<^verbatim>\<open>boot\<close> is one function in the source. The model cuts it in three at its early
  returns, each part running into the next: the requirement checks (\<open>boot\<close>), the search
  for media from line 546 on (\<open>boot_media\<close>), and the launch from line 563 on
  (\<open>boot_launch\<close>).
\<close>

definition boot_launch :: "env \<Rightarrow> world \<Rightarrow> bool result" where
  "boot_launch e w =
     (let w1 = printConfiguration e (emit (Print newline) w);
          w2 = (if isoFiles w1 \<noteq> [] \<and> diskFiles w1 \<noteq> []
                then log ''Boot Mode: ISO Installation with persistent disk(s)'' w1
                else if isoFiles w1 \<noteq> []
                then log ''Boot Mode: Live ISO (no persistent storage)'' w1
                else log ''Boot Mode: Disk boot'' w1);
          w3 = emit (Print newline) (log ''Starting virtual machine...'' (emit (Print newline) w2))
      in case startQEMU e w3 of
           Inl a \<Rightarrow> Inl a
         | Inr (started, w4) \<Rightarrow>
             (if \<not> started then Inr (False, error ''Failed to start QEMU!'' w4)
              else (let w5 = success ''QEMU started successfully!'' w4
                    in if useVNC w5
                       then (case startWebsockify e w5 of
                               Inl a \<Rightarrow> Inl a
                             | Inr (proxied, w6) \<Rightarrow>
                                 (if \<not> proxied then Inr (False, cleanup w6)
                                  else (let w7 = success ''Websockify started successfully!'' w6;
                                            w8 = emit PrintReady (emit (Print newline) w7);
                                            w9 = emit (Print newline) w8;
                                            w10 = log ''Press Ctrl+C to shutdown the VM'' w9
                                        in Inr (True, emit (Print newline) w10))))
                       else (let w7 = success ''VM started in local display mode!'' w5;
                                 w9 = emit (Print newline) w7;
                                 w10 = log ''Press Ctrl+C to shutdown the VM'' w9
                             in Inr (True, emit (Print newline) w10)))))"

definition boot_media :: "env \<Rightarrow> world \<Rightarrow> bool result" where
  "boot_media e w =
     (let d = findAllDisks (disk_dir e) w;
          w1 = (snd d)\<lparr>diskFiles := fst d\<rparr>;
          i = findAllISOs (rom_dir e) w1;
          w2 = (snd i)\<lparr>isoFiles := fst i\<rparr>;
          w3 = (if diskFiles w2 = []
                then (let r = createDefaultDisk e (disk_dir e) (warning ''No disk images found!'' w2)
                      in if fst r
                         then (let d2 = findAllDisks (fst (snd r)) (snd (snd r))
                               in (snd d2)\<lparr>diskFiles := fst d2\<rparr>)
                         else snd (snd r))
                else w2)
      in if diskFiles w3 = [] \<and> isoFiles w3 = []
         then Inr (False,
                   error ''Please add disk images to ./devices/disk/ or ISOs to ./devices/rom/''
                     (error ''No bootable media available!'' w3))
         else boot_launch e w3)"

definition boot :: "env \<Rightarrow> world \<Rightarrow> bool result" where
  "boot e w =
     (let w1 = log ''Initializing Cold VM...'' (printHeader w);
          w2 = createDirectories e w1;
          w3 = debug ''Checking system requirements...'' w2;
          q = checkCommand e ''qemu-system-x86_64'' ''QEMU'' w3
      in if \<not> fst q then Inr (False, error ''QEMU is required but not installed!'' (snd q))
         else (let w4 = snd (checkFile e (firmwarePath (snd q)) ''OVMF Firmware'' (snd q))
               in if useVNC w4 \<and> \<not> fst (checkCommand e ''websockify'' ''Websockify'' w4)
                  then Inr (False, error ''Websockify is required for VNC mode!''
                                     (snd (checkCommand e ''websockify'' ''Websockify'' w4)))
                  else (let w5 = (if useVNC w4
                                  then (let v = snd (checkCommand e ''websockify'' ''Websockify'' w4)
                                        in snd (checkFile e (noVNCPath v) ''noVNC'' v))
                                  else w4);
                            w6 = (if useBridge w5 then snd (checkBridgeInterface e w5) else w5)
                        in boot_media e w6)))"

subsection \<open>The signal handler and main\<close>

text \<open>
  How the process ends: \<^verbatim>\<open>return\<close> from \<^verbatim>\<open>main\<close> or \<^verbatim>\<open>exit\<close> with a status, or one of the
  abnormal ends above.
\<close>

datatype status = Exited int | Aborted abort


definition help_text :: "string \<Rightarrow> string list" where
  "help_text argv0 =
     [''Cold VM Manager - Advanced Virtual Machine System'' @ newline @ newline,
      ''Usage: '' @ argv0 @ '' [options]'' @ newline @ newline,
      ''Options:'' @ newline,
      ''  --no-vnc      Use local GTK display instead of VNC'' @ newline,
      ''  --no-bridge   Use NAT networking instead of bridge'' @ newline,
      ''  --no-camera   Disable camera passthrough'' @ newline,
      ''  --no-mic      Disable microphone'' @ newline,
      ''  --help, -h    Show this help message'' @ newline @ newline,
      ''Default configuration:'' @ newline,
      ''  - 6 GB RAM'' @ newline,
      ''  - 4 CPU cores (host model)'' @ newline,
      ''  - VirtIO devices'' @ newline,
      ''  - VNC with remote scaling'' @ newline,
      ''  - Bridge networking (virbr0)'' @ newline,
      ''  - Camera, audio & microphone enabled'' @ newline,
      newline]"

text \<open>
  The loop over \<^verbatim>\<open>argv[1..]\<close>: \<open>True\<close> when the help was printed, where \<^verbatim>\<open>main\<close> returns 0
  at once.
\<close>

primrec parse_args :: "string \<Rightarrow> string list \<Rightarrow> world \<Rightarrow> bool \<times> world" where
  "parse_args argv0 [] w = (False, w)"
| "parse_args argv0 (arg # rest) w =
     (if arg = ''--no-vnc'' then parse_args argv0 rest (w\<lparr>useVNC := False\<rparr>)
      else if arg = ''--no-bridge'' then parse_args argv0 rest (w\<lparr>useBridge := False\<rparr>)
      else if arg = ''--no-camera'' then parse_args argv0 rest (w\<lparr>enableCamera := False\<rparr>)
      else if arg = ''--no-mic'' then parse_args argv0 rest (w\<lparr>enableMicrophone := False\<rparr>)
      else if arg = ''--help'' \<or> arg = ''-h''
      then (True, foldl (\<lambda>v t. emit (Print t) v) w (help_text argv0))
      else parse_args argv0 rest w)"

text \<open>
  \<^verbatim>\<open>while (true) { sleep(1); }\<close> never leaves by itself. With fuel \<open>n\<close> it is run for \<open>n\<close>
  rounds; \<open>None\<close> says that the process is still in the loop then.
\<close>

primrec idle_loop :: "nat \<Rightarrow> world \<Rightarrow> status option \<times> world" where
  "idle_loop 0 w = (None, w)"
| "idle_loop (Suc n) w = idle_loop n (emit (Sleep 1) w)"

text \<open>The object \<^verbatim>\<open>vm\<close> of \<^verbatim>\<open>main\<close>, constructed after the two calls of \<^verbatim>\<open>signal\<close>.\<close>

definition main_object :: world where
  "main_object = emit (InstallHandler SIGTERM) (emit (InstallHandler SIGINT) ColdVM_init)"

text \<open>\<^verbatim>\<open>main\<close>, on \<^verbatim>\<open>argv[0]\<close> and the remaining arguments, with fuel for the idle loop.\<close>

definition main :: "nat \<Rightarrow> env \<Rightarrow> string \<Rightarrow> string list \<Rightarrow> status option \<times> world" where
  "main fuel e argv0 args =
     (let a = parse_args argv0 args main_object
      in if fst a then (Some (Exited 0), snd a)
         else (case boot e (snd a) of
                 Inl (ab, w) \<Rightarrow> (Some (Aborted ab), w)
               | Inr (booted, w) \<Rightarrow>
                   (if booted then idle_loop fuel w
                    else (Some (Exited 1),
                          emit (PrintErr (newline @ cross_mark @ '' Failed to start Cold VM!''
                                            @ newline @ newline)) w))))"

subsection \<open>Objects and environments used as examples\<close>

text \<open>An object whose two children are running, with process ids 4001 and 4002.\<close>

definition both_started :: world where
  "both_started = ColdVM_init\<lparr>qemuPid := 4001, websockifyPid := 4002\<rparr>"



definition dir_default_disk :: dir where
  "dir_default_disk = \<lparr> is_directory = True, entries = [''disk.qcow2''], iter_error = None \<rparr>"

definition dir_empty :: dir where
  "dir_empty = \<lparr> is_directory = True, entries = [], iter_error = None \<rparr>"

text \<open>A disk directory holding a VDI image whose name has \<^verbatim>\<open>.img\<close> inside.\<close>

definition dir_img_vdi :: dir where
  "dir_img_vdi = \<lparr> is_directory = True, entries = [''a.img.vdi''], iter_error = None \<rparr>"

text \<open>
  An environment where every command succeeds, no firmware and no noVNC directory exist,
  the disk directory holds \<^verbatim>\<open>disk.qcow2\<close>, there is no ISO, \<^verbatim>\<open>popen\<close> fails and both forks
  succeed.
\<close>

definition env_plain :: env where
  "env_plain =
     \<lparr> system_rc = (\<lambda>c. 0), path_exists = (\<lambda>p. False), mkdir_error = None,
       disk_dir = dir_default_disk, disk_dir_after_create = dir_default_disk,
       rom_dir = dir_empty, copy_fails = (\<lambda>p. False), lsusb = None,
       fork_qemu = 4001, fork_websockify = 4002 \<rparr>"



text \<open>
  The same as \<open>env_plain\<close>, with the noVNC directory present and the second \<^verbatim>\<open>fork\<close>
  failing.
\<close>

definition env_proxy_fork_fails :: env where
  "env_proxy_fork_fails =
     env_plain\<lparr> path_exists := (\<lambda>p. p = ''./libraries/noVNC''), fork_websockify := - 1 \<rparr>"

text \<open>The same as \<open>env_plain\<close>, with \<^verbatim>\<open>lsusb\<close> printing one truncated camera line.\<close>

definition env_truncated_lsusb :: env where
  "env_truncated_lsusb = env_plain\<lparr> lsusb := Some (''Camera ID 12'' @ newline) \<rparr>"

text \<open>
  An object as \<open>boot\<close> leaves it for the command builder when the scan found the default
  disk, the argument vector built from it in \<open>env_plain\<close>, and the same object in NAT mode.
\<close>

definition disk_started :: world where
  "disk_started = ColdVM_init\<lparr>diskFiles := [''./devices/disk/disk.qcow2'']\<rparr>"

definition plain_cmd :: "string list" where
  "plain_cmd =
     [''qemu-system-x86_64'', ''-enable-kvm'', ''-cpu'', ''host'', ''-smp'',
      ''4'', ''-m'', ''4G'', ''-vga'', ''virtio'', ''-display'', ''none'',
      ''-vnc'', '':1'', ''-drive'',
      ''file=./devices/disk/disk.qcow2,format=qcow2,if=virtio,cache=writeback'',
      ''-audiodev'', ''alsa,id=audio0'', ''-device'', ''intel-hda'',
      ''-device'', ''hda-duplex,audiodev=audio0'', ''-netdev'',
      ''bridge,id=net0,br=virbr0'', ''-device'', ''virtio-net-pci,netdev=net0,mac=52:54:00:12:34:56'',
      ''-device'', ''qemu-xhci,id=xhci'', ''-device'', ''usb-tablet'',
      ''-rtc'', ''base=localtime,clock=host,driftfix=slew'', ''-boot'',
      ''order=c,menu=on'', ''-machine'', ''type=q35,accel=kvm'']"

definition nat_started :: world where
  "nat_started = ColdVM_init\<lparr>useBridge := False, diskFiles := [''./devices/disk/disk.qcow2'']\<rparr>"

subsection \<open>Bookkeeping for the proofs\<close>

text \<open>
  The events that touch a child process, and two relations used to follow an object
  through the code: \<open>quiet w w'\<close> says that \<open>w'\<close> is \<open>w\<close> with more events on the trace, none
  of them touching a child; \<open>appends cw cw'\<close> says so for a pair of an argument vector and
  an object, the vector having only grown at its end.
\<close>

fun is_process :: "event \<Rightarrow> bool" where
  "is_process (Fork p) = True"
| "is_process (Kill p s) = True"
| "is_process (Waitpid p) = True"
| "is_process ev = False"

definition process_events :: "event list \<Rightarrow> event list" where
  "process_events t = filter is_process t"

definition quiet :: "world \<Rightarrow> world \<Rightarrow> bool" where
  "quiet w w' \<longleftrightarrow> (\<exists>t. w' = w\<lparr>trace := trace w @ t\<rparr> \<and> process_events t = [])"

definition appends :: "string list \<times> world \<Rightarrow> string list \<times> world \<Rightarrow> bool" where
  "appends cw cw' \<longleftrightarrow> (\<exists>xs. fst cw' = fst cw @ xs) \<and> quiet (snd cw) (snd cw')"

text \<open>
  \<open>calm w w'\<close>: from \<open>w\<close> to \<open>w'\<close> the two process ids, the display mode and the noVNC path
  are unchanged and no event touching a child has been added.
\<close>

definition calm :: "world \<Rightarrow> world \<Rightarrow> bool" where
  "calm w w' \<longleftrightarrow>
     qemuPid w' = qemuPid w \<and> websockifyPid w' = websockifyPid w \<and> useVNC w' = useVNC w \<and>
     noVNCPath w' = noVNCPath w \<and> process_events (trace w') = process_events (trace w)"

section \<open>Properties\<close>

subsection \<open>Functions that leave the children alone\<close>

lemma quiet_refl: "quiet w w"
  unfolding quiet_def by (rule exI [of _ "[]"]) (simp add: process_events_def)

lemma quiet_trans: "quiet w w' \<Longrightarrow> quiet w' w'' \<Longrightarrow> quiet w w''"
proof -
  assume "quiet w w'" and "quiet w' w''"
  then obtain t u where a: "w' = w\<lparr>trace := trace w @ t\<rparr>" "process_events t = []"
    and b: "w'' = w'\<lparr>trace := trace w' @ u\<rparr>" "process_events u = []"
    unfolding quiet_def by blast
  have "w'' = w\<lparr>trace := trace w @ (t @ u)\<rparr>" using a(1) b(1) by simp
  moreover have "process_events (t @ u) = []" using a(2) b(2) by (simp add: process_events_def)
  ultimately show ?thesis unfolding quiet_def by blast
qed

lemma quiet_emit: "\<not> is_process ev \<Longrightarrow> quiet w w' \<Longrightarrow> quiet w (emit ev w')"
proof -
  assume n: "\<not> is_process ev" and q: "quiet w w'"
  have "quiet w' (emit ev w')"
    unfolding quiet_def emit_def using n
    by (intro exI [of _ "[ev]"]) (simp add: process_events_def)
  with q show ?thesis by (rule quiet_trans)
qed

lemma quiet_say:
  "quiet w w' \<Longrightarrow> quiet w (log m w')"
  "quiet w w' \<Longrightarrow> quiet w (warning m w')"
  "quiet w w' \<Longrightarrow> quiet w (debug m w')"
  "quiet w w' \<Longrightarrow> quiet w (error m w')"
  "quiet w w' \<Longrightarrow> quiet w (success m w')"
  unfolding log_def warning_def debug_def error_def success_def
  by (simp_all add: quiet_emit)

lemmas quiet_intros = quiet_refl quiet_say quiet_emit

lemma quiet_process: "quiet w w' \<Longrightarrow> process_events (trace w') = process_events (trace w)"
  unfolding quiet_def by (auto simp: process_events_def)

lemma quiet_fields:
  assumes "quiet w w'"
  shows "qemuPid w' = qemuPid w" "websockifyPid w' = websockifyPid w"
    "useVNC w' = useVNC w" "useBridge w' = useBridge w" "noVNCPath w' = noVNCPath w"
    "diskFiles w' = diskFiles w" "isoFiles w' = isoFiles w"
    "ramGB w' = ramGB w" "cpuCores w' = cpuCores w" "cpuModel w' = cpuModel w"
    "bridgeInterface w' = bridgeInterface w" "enableCamera w' = enableCamera w"
  using assms unfolding quiet_def by auto

lemma quiet_checkFile: "quiet w (snd (checkFile e p n w))"
  by (simp add: checkFile_def quiet_intros)

lemma quiet_checkCommand: "quiet w (snd (checkCommand e c n w))"
  by (simp add: checkCommand_def Let_def quiet_intros)

lemma quiet_scan_loop: "quiet w (snd acc) \<Longrightarrow> quiet w (snd (scan_loop wanted d l ns acc))"
  by (induction ns arbitrary: acc) (simp_all add: quiet_intros)

lemma quiet_scan_dir: "quiet w (snd (scan_dir wanted d l f st w))"
  by (simp add: scan_dir_def Let_def quiet_intros quiet_scan_loop split: option.split prod.split)

lemma quiet_findAllDisks: "quiet w (snd (findAllDisks st w))"
  unfolding findAllDisks_def Let_def
  by (rule quiet_trans [OF _ quiet_scan_dir]) (simp add: quiet_intros)

lemma quiet_findAllISOs: "quiet w (snd (findAllISOs st w))"
  unfolding findAllISOs_def Let_def
  by (rule quiet_trans [OF _ quiet_scan_dir]) (simp add: quiet_intros)

lemma quiet_foldl_emit:
  "(\<And>p. \<not> is_process (f p)) \<Longrightarrow> quiet w w' \<Longrightarrow> quiet w (foldl (\<lambda>v p. emit (f p) v) w' ps)"
  by (induction ps arbitrary: w') (simp_all add: quiet_intros)

lemma quiet_createDirectories: "quiet w (createDirectories e w)"
  by (simp add: createDirectories_def Let_def quiet_intros quiet_foldl_emit
      split: option.split prod.split)

lemma quiet_createDefaultDisk: "quiet w (snd (snd (createDefaultDisk e st w)))"
  by (simp add: createDefaultDisk_def Let_def quiet_intros)

lemma quiet_copy_vars: "quiet w w' \<Longrightarrow> quiet w (snd (copy_vars e srcs w'))"
  by (induction srcs arbitrary: w') (simp_all add: quiet_intros)

lemma quiet_createVarsFile: "quiet w (snd (createVarsFile e w))"
  by (simp add: createVarsFile_def Let_def quiet_intros quiet_copy_vars)

lemma quiet_printConfiguration: "quiet w (printConfiguration e w)"
  by (simp add: printConfiguration_def Let_def quiet_intros)


lemma appends_refl: "appends cw cw"
  by (simp add: appends_def quiet_refl)

lemma appends_trans: "appends a b \<Longrightarrow> appends b c \<Longrightarrow> appends a c"
  unfolding appends_def by (auto intro: quiet_trans)

lemma appends_step: "appends a b \<Longrightarrow> quiet (snd b) v \<Longrightarrow> appends a (fst b @ xs, v)"
  unfolding appends_def by (auto intro: quiet_trans)

lemma appends_build_firmware: "appends cw (build_firmware e cw)"
proof -
  have q: "quiet (snd cw) (snd (createVarsFile e (snd cw)))" by (rule quiet_createVarsFile)
  show ?thesis
    using q by (simp add: build_firmware_def Let_def appends_def quiet_refl)
qed

lemma appends_disks_loop: "appends a cw \<Longrightarrow> appends a (disks_loop i ps cw)"
proof (induction ps arbitrary: i cw)
  case Nil
  then show ?case by simp
next
  case (Cons p ps)
  show ?case
    unfolding disks_loop.simps Let_def
    by (rule Cons.IH) (rule appends_step [OF Cons.prems], simp add: quiet_intros)
qed

lemma appends_log: "appends a cw \<Longrightarrow> appends a (fst cw, log m (snd cw))"
  unfolding appends_def by (simp add: quiet_say)

lemma appends_build_disks: "appends cw (build_disks cw)"
  unfolding build_disks_def Let_def
  by (simp add: appends_refl appends_disks_loop appends_log)

lemma appends_isos_loop: "appends a cw \<Longrightarrow> appends a (isos_loop i ps cw)"
proof (induction ps arbitrary: i cw)
  case Nil
  then show ?case by simp
next
  case (Cons p ps)
  have "appends a (fst cw @ xs, log m (snd cw))" for xs m
    by (rule appends_step [OF Cons.prems]) (simp add: quiet_intros)
  then show ?case
    by (simp add: Cons.IH)
qed

lemma appends_build_isos: "appends cw (build_isos cw)"
  unfolding build_isos_def Let_def
  by (simp add: appends_refl appends_isos_loop appends_log)

lemma appends_build_audio: "appends cw (build_audio cw)"
  by (simp add: build_audio_def Let_def appends_def quiet_intros)

lemma build_network_eq:
  "fst (build_network cw) =
     fst cw @ (if useBridge (snd cw)
               then [''-netdev'', ''bridge,id=net0,br='' @ bridgeInterface (snd cw),
                     ''-device'', ''virtio-net-pci,netdev=net0,mac=52:54:00:12:34:56'']
               else [''-netdev'', ''user,id=net0'', ''-device'', ''virtio-net-pci,netdev=net0''])"
  "quiet (snd cw) (snd (build_network cw))"
  by (simp_all add: build_network_def Let_def quiet_intros)

lemma build_boot_order_eq:
  "build_boot_order cw =
     (fst cw @ [''-boot'', if isoFiles (snd cw) \<noteq> [] then ''order=dc,menu=on'' else ''order=c,menu=on''],
      snd cw)"
  by (simp add: build_boot_order_def Let_def)

lemma appends_build_camera: "build_camera e cw = Inr cw' \<Longrightarrow> appends cw cw'"
  by (auto simp: build_camera_def Let_def appends_def quiet_intros
      split: if_splits option.splits probe.splits)

lemma buildQEMUCommand_shape:
  assumes b: "buildQEMUCommand e w = Inr (cmd, w')"
  shows "\<exists>mid cam.
           cmd = [''qemu-system-x86_64'', ''-enable-kvm'', ''-cpu'', cpuModel w,
                  ''-smp'', to_string (cpuCores w), ''-m'', to_string (ramGB w) @ ''G'',
                  ''-vga'', ''virtio'', ''-display'']
                 @ mid
                 @ (if useBridge w
                    then [''-netdev'', ''bridge,id=net0,br='' @ bridgeInterface w,
                          ''-device'', ''virtio-net-pci,netdev=net0,mac=52:54:00:12:34:56'']
                    else [''-netdev'', ''user,id=net0'', ''-device'', ''virtio-net-pci,netdev=net0''])
                 @ [''-device'', ''qemu-xhci,id=xhci'', ''-device'', ''usb-tablet'']
                 @ cam
                 @ [''-rtc'', ''base=localtime,clock=host,driftfix=slew'',
                    ''-boot'', if isoFiles w \<noteq> [] then ''order=dc,menu=on'' else ''order=c,menu=on'',
                    ''-machine'', ''type=q35,accel=kvm'']"
    and "quiet w w'"
proof -
  define cmd0 where "cmd0 = [''qemu-system-x86_64'', ''-enable-kvm'', ''-cpu'', cpuModel w,
                  ''-smp'', to_string (cpuCores w), ''-m'', to_string (ramGB w) @ ''G'',
                  ''-vga'', ''virtio'', ''-display'']"
  define cmd1 where "cmd1 = cmd0 @ (if useVNC w then [''none'', ''-vnc'', '':1''] else [''gtk,gl=on''])"
  define cw5 where "cw5 = build_audio (build_isos (build_disks (build_firmware e (cmd1, w))))"
  define cw6 where "cw6 = build_network cw5"
  define cw7 where "cw7 = (fst cw6 @ [''-device'', ''qemu-xhci,id=xhci'', ''-device'', ''usb-tablet''], snd cw6)"
  have a5: "appends (cmd1, w) cw5"
    unfolding cw5_def
    by (rule appends_trans [OF appends_trans [OF appends_trans
          [OF appends_build_firmware appends_build_disks] appends_build_isos] appends_build_audio])
  then obtain xs where x5: "fst cw5 = cmd1 @ xs" and q5: "quiet w (snd cw5)"
    by (auto simp: appends_def)
  have q6: "quiet w (snd cw6)"
    unfolding cw6_def by (rule quiet_trans [OF q5 build_network_eq(2)])
  have f6: "fst cw6 = fst cw5 @ (if useBridge w
                    then [''-netdev'', ''bridge,id=net0,br='' @ bridgeInterface w,
                          ''-device'', ''virtio-net-pci,netdev=net0,mac=52:54:00:12:34:56'']
                    else [''-netdev'', ''user,id=net0'', ''-device'', ''virtio-net-pci,netdev=net0''])"
    unfolding cw6_def build_network_eq(1) using quiet_fields [OF q5] by simp
  have b': "(case build_camera e cw7 of
               Inl a \<Rightarrow> Inl a
             | Inr cw8 \<Rightarrow>
                 Inr (fst (build_boot_order (fst cw8 @ [''-rtc'', ''base=localtime,clock=host,driftfix=slew''], snd cw8))
                        @ [''-machine'', ''type=q35,accel=kvm''],
                      snd (build_boot_order (fst cw8 @ [''-rtc'', ''base=localtime,clock=host,driftfix=slew''], snd cw8))))
            = Inr (cmd, w')"
    using b unfolding buildQEMUCommand_def Let_def cw7_def cw6_def cw5_def cmd1_def cmd0_def .
  then obtain cw8 where c8: "build_camera e cw7 = Inr cw8"
    and r: "cmd = fst (build_boot_order (fst cw8 @ [''-rtc'', ''base=localtime,clock=host,driftfix=slew''], snd cw8))
                    @ [''-machine'', ''type=q35,accel=kvm'']"
           "w' = snd (build_boot_order (fst cw8 @ [''-rtc'', ''base=localtime,clock=host,driftfix=slew''], snd cw8))"
    by (cases "build_camera e cw7") auto
  from appends_build_camera [OF c8] obtain cam where x8: "fst cw8 = fst cw7 @ cam"
    and q8: "quiet (snd cw7) (snd cw8)"
    by (auto simp: appends_def)
  have q: "quiet w (snd cw8)" using q6 q8 by (auto simp: cw7_def intro: quiet_trans)
  have w': "w' = snd cw8" using r(2) by (simp add: build_boot_order_eq)
  show "quiet w w'" using q w' by simp
  have "cmd = fst cw8 @ [''-rtc'', ''base=localtime,clock=host,driftfix=slew'',
                    ''-boot'', if isoFiles w \<noteq> [] then ''order=dc,menu=on'' else ''order=c,menu=on'',
                    ''-machine'', ''type=q35,accel=kvm'']"
    using r(1) quiet_fields [OF q] by (simp add: build_boot_order_eq)
  then have fin: "cmd = cmd0 @ ((if useVNC w then [''none'', ''-vnc'', '':1''] else [''gtk,gl=on'']) @ xs)
                 @ (if useBridge w
                    then [''-netdev'', ''bridge,id=net0,br='' @ bridgeInterface w,
                          ''-device'', ''virtio-net-pci,netdev=net0,mac=52:54:00:12:34:56'']
                    else [''-netdev'', ''user,id=net0'', ''-device'', ''virtio-net-pci,netdev=net0''])
                 @ [''-device'', ''qemu-xhci,id=xhci'', ''-device'', ''usb-tablet'']
                 @ cam
                 @ [''-rtc'', ''base=localtime,clock=host,driftfix=slew'',
                    ''-boot'', if isoFiles w \<noteq> [] then ''order=dc,menu=on'' else ''order=c,menu=on'',
                    ''-machine'', ''type=q35,accel=kvm'']"
    unfolding x8 cw7_def f6 x5 cmd1_def by simp
  show "\<exists>mid cam.
           cmd = [''qemu-system-x86_64'', ''-enable-kvm'', ''-cpu'', cpuModel w,
                  ''-smp'', to_string (cpuCores w), ''-m'', to_string (ramGB w) @ ''G'',
                  ''-vga'', ''virtio'', ''-display'']
                 @ mid
                 @ (if useBridge w
                    then [''-netdev'', ''bridge,id=net0,br='' @ bridgeInterface w,
                          ''-device'', ''virtio-net-pci,netdev=net0,mac=52:54:00:12:34:56'']
                    else [''-netdev'', ''user,id=net0'', ''-device'', ''virtio-net-pci,netdev=net0''])
                 @ [''-device'', ''qemu-xhci,id=xhci'', ''-device'', ''usb-tablet'']
                 @ cam
                 @ [''-rtc'', ''base=localtime,clock=host,driftfix=slew'',
                    ''-boot'', if isoFiles w \<noteq> [] then ''order=dc,menu=on'' else ''order=c,menu=on'',
                    ''-machine'', ''type=q35,accel=kvm'']"
    by (rule exI, rule exI, rule fin [unfolded cmd0_def])
qed


subsection \<open>Teardown\<close>

lemma cleanup_trace:
  "trace (cleanup w) =
     trace w @ [Say SevLog ''Shutting down Cold VM...'']
       @ (if qemuPid w \<noteq> - 1
          then [Kill (qemuPid w) SIGTERM, Waitpid (qemuPid w), Say SevSuccess ''QEMU stopped'']
          else [])
       @ (if websockifyPid w \<noteq> - 1
          then [Kill (websockifyPid w) SIGTERM, Waitpid (websockifyPid w),
                Say SevSuccess ''Websockify stopped'']
          else [])"
  by (simp add: cleanup_def Let_def log_def success_def emit_def)

text \<open>
  C1, as the code has it: when both children were started, \<open>cleanup\<close> signals and waits
  for the hypervisor child first and only then signals and waits for the display-proxy
  child; the teardown order is the spawn order, not its reverse.
\<close>

theorem cleanup_hypervisor_then_proxy:
  assumes "qemuPid w \<noteq> - 1" and "websockifyPid w \<noteq> - 1"
  shows "trace (cleanup w) =
           trace w @ [Say SevLog ''Shutting down Cold VM...'',
                      Kill (qemuPid w) SIGTERM, Waitpid (qemuPid w),
                      Say SevSuccess ''QEMU stopped'',
                      Kill (websockifyPid w) SIGTERM, Waitpid (websockifyPid w),
                      Say SevSuccess ''Websockify stopped'']"
  using assms by (simp add: cleanup_trace)

theorem cleanup_hypervisor_then_proxy_witness:
  "qemuPid both_started \<noteq> - 1 \<and> websockifyPid both_started \<noteq> - 1 \<and>
   trace (cleanup both_started) =
     [Say SevLog ''Shutting down Cold VM...'',
      Kill 4001 15, Waitpid 4001, Say SevSuccess ''QEMU stopped'',
      Kill 4002 15, Waitpid 4002, Say SevSuccess ''Websockify stopped'']"
  using cleanup_hypervisor_then_proxy [of both_started]
  by (simp add: both_started_def ColdVM_init_def SIGTERM_def)

text \<open>
  C1 as the specification states it fails: with both children running, the wait for the
  proxy (4002) does not come before the signal to the hypervisor (4001); the wait for
  the hypervisor comes before the signal to the proxy.
\<close>

theorem cleanup_proxy_first_counterexample:
  "qemuPid both_started = 4001 \<and> websockifyPid both_started = 4002 \<and>
   \<not> precedes (Waitpid 4002) (Kill 4001 SIGTERM) (trace (cleanup both_started)) \<and>
   precedes (Waitpid 4001) (Kill 4002 SIGTERM) (trace (cleanup both_started))"
  by (simp add: cleanup_trace both_started_def ColdVM_init_def SIGTERM_def)



subsection \<open>The command builder\<close>

text \<open>
  The builder returns unless the camera probe throws: with the camera disabled, with
  \<^verbatim>\<open>popen\<close> failing, or with an \<^verbatim>\<open>lsusb\<close> text on which the parsing loop does not throw.
\<close>

lemma buildQEMUCommand_returns:
  assumes "\<not> enableCamera w \<or> lsusb e = None \<or> (\<exists>out. lsusb e = Some out \<and> camera_loop out \<noteq> Thrown)"
  shows "\<exists>cmd w'. buildQEMUCommand e w = Inr (cmd, w')"
proof -
  define cw5 where "cw5 = build_audio (build_isos (build_disks (build_firmware e
     ([''qemu-system-x86_64'', ''-enable-kvm'', ''-cpu'', cpuModel w, ''-smp'',
       to_string (cpuCores w), ''-m'', to_string (ramGB w) @ ''G'', ''-vga'', ''virtio'',
       ''-display''] @ (if useVNC w then [''none'', ''-vnc'', '':1''] else [''gtk,gl=on'']), w))))"
  define cw7 where "cw7 = (fst (build_network cw5) @ [''-device'', ''qemu-xhci,id=xhci'', ''-device'', ''usb-tablet''],
                           snd (build_network cw5))"
  have a: "appends ([''qemu-system-x86_64'', ''-enable-kvm'', ''-cpu'', cpuModel w, ''-smp'',
       to_string (cpuCores w), ''-m'', to_string (ramGB w) @ ''G'', ''-vga'', ''virtio'',
       ''-display''] @ (if useVNC w then [''none'', ''-vnc'', '':1''] else [''gtk,gl=on'']), w) cw5"
    unfolding cw5_def
    by (rule appends_trans [OF appends_trans [OF appends_trans
          [OF appends_build_firmware appends_build_disks] appends_build_isos] appends_build_audio])
  then have "quiet w (snd cw5)" by (simp add: appends_def)
  then have "quiet w (snd cw7)"
    unfolding cw7_def by (simp add: quiet_trans [OF _ build_network_eq(2)])
  then have c: "enableCamera (snd cw7) = enableCamera w" by (simp add: quiet_fields)
  have "\<exists>cw8. build_camera e cw7 = Inr cw8"
    using assms c by (auto simp: build_camera_def Let_def split: option.splits probe.splits)
  then obtain cw8 where c8: "build_camera e cw7 = Inr cw8" ..
  have "buildQEMUCommand e w =
          (case build_camera e cw7 of
             Inl a \<Rightarrow> Inl a
           | Inr cw8 \<Rightarrow>
               Inr (fst (build_boot_order (fst cw8 @ [''-rtc'', ''base=localtime,clock=host,driftfix=slew''], snd cw8))
                      @ [''-machine'', ''type=q35,accel=kvm''],
                    snd (build_boot_order (fst cw8 @ [''-rtc'', ''base=localtime,clock=host,driftfix=slew''], snd cw8))))"
    unfolding buildQEMUCommand_def Let_def cw7_def cw5_def ..
  with c8 show ?thesis by simp
qed

lemma build_plain:
  "\<exists>w'. buildQEMUCommand env_plain disk_started = Inr (plain_cmd, w')"
proof -
  have "map_sum fst fst (buildQEMUCommand env_plain disk_started) = Inr plain_cmd"
    by code_simp
  then show ?thesis
    by (cases "buildQEMUCommand env_plain disk_started") auto
qed

text \<open>
  C8, as the code has it: in both network modes the built invocation attaches a
  paravirtualized NIC (\<^verbatim>\<open>virtio-net-pci\<close> on \<^verbatim>\<open>net0\<close>) right after the network backend; the
  fixed MAC address 52:54:00:12:34:56 is given in bridged mode only, and in user-mode NAT
  the device argument names no MAC address.
\<close>

theorem network_nic:
  assumes "buildQEMUCommand e w = Inr (cmd, w')"
  shows "\<exists>pre post.
           cmd = pre
                 @ [''-netdev'',
                    if useBridge w then ''bridge,id=net0,br='' @ bridgeInterface w else ''user,id=net0'',
                    ''-device'',
                    if useBridge w then ''virtio-net-pci,netdev=net0,mac=52:54:00:12:34:56''
                    else ''virtio-net-pci,netdev=net0'']
                 @ post"
proof -
  from buildQEMUCommand_shape(1) [OF assms] obtain mid cam where
    c: "cmd = [''qemu-system-x86_64'', ''-enable-kvm'', ''-cpu'', cpuModel w,
                  ''-smp'', to_string (cpuCores w), ''-m'', to_string (ramGB w) @ ''G'',
                  ''-vga'', ''virtio'', ''-display'']
                 @ mid
                 @ (if useBridge w
                    then [''-netdev'', ''bridge,id=net0,br='' @ bridgeInterface w,
                          ''-device'', ''virtio-net-pci,netdev=net0,mac=52:54:00:12:34:56'']
                    else [''-netdev'', ''user,id=net0'', ''-device'', ''virtio-net-pci,netdev=net0''])
                 @ [''-device'', ''qemu-xhci,id=xhci'', ''-device'', ''usb-tablet'']
                 @ cam
                 @ [''-rtc'', ''base=localtime,clock=host,driftfix=slew'',
                    ''-boot'', if isoFiles w \<noteq> [] then ''order=dc,menu=on'' else ''order=c,menu=on'',
                    ''-machine'', ''type=q35,accel=kvm'']"
    by blast
  show ?thesis
    apply (rule exI [of _ "[''qemu-system-x86_64'', ''-enable-kvm'', ''-cpu'', cpuModel w,
                  ''-smp'', to_string (cpuCores w), ''-m'', to_string (ramGB w) @ ''G'',
                  ''-vga'', ''virtio'', ''-display''] @ mid"])
    apply (rule exI [of _ "[''-device'', ''qemu-xhci,id=xhci'', ''-device'', ''usb-tablet'']
                 @ cam
                 @ [''-rtc'', ''base=localtime,clock=host,driftfix=slew'',
                    ''-boot'', if isoFiles w \<noteq> [] then ''order=dc,menu=on'' else ''order=c,menu=on'',
                    ''-machine'', ''type=q35,accel=kvm'']"])
    apply (subst c)
    apply (simp only: append_assoc if_distrib [of "\<lambda>x. x @ _"] split: if_split)
    apply simp
    done
qed

theorem network_nic_witness:
  "\<exists>w'. buildQEMUCommand env_plain disk_started = Inr (plain_cmd, w') \<and>
        (\<exists>pre post. plain_cmd = pre @ [''-netdev'', ''bridge,id=net0,br=virbr0'', ''-device'',
                                           ''virtio-net-pci,netdev=net0,mac=52:54:00:12:34:56''] @ post)"
proof -
  from build_plain obtain w' where b: "buildQEMUCommand env_plain disk_started = Inr (plain_cmd, w')" ..
  have n: "\<exists>pre post. plain_cmd = pre @ [''-netdev'', ''bridge,id=net0,br=virbr0'', ''-device'',
                                           ''virtio-net-pci,netdev=net0,mac=52:54:00:12:34:56''] @ post"
    using network_nic [OF b] by (simp add: disk_started_def ColdVM_init_def)
  show ?thesis by (rule exI [of _ w'], rule conjI [OF b n])
qed

text \<open>
  C8 as the specification states it fails in NAT mode: the device argument is
  \<^verbatim>\<open>virtio-net-pci,netdev=net0\<close> and no argument of the invocation mentions a MAC address.
\<close>

theorem nat_nic_without_mac_counterexample:
  "\<not> useBridge nat_started \<and>
   map_sum fst fst (buildQEMUCommand env_plain nat_started) =
     Inr [''qemu-system-x86_64'', ''-enable-kvm'', ''-cpu'', ''host'', ''-smp'',
      ''4'', ''-m'', ''4G'', ''-vga'', ''virtio'', ''-display'', ''none'',
      ''-vnc'', '':1'', ''-drive'',
      ''file=./devices/disk/disk.qcow2,format=qcow2,if=virtio,cache=writeback'',
      ''-audiodev'', ''alsa,id=audio0'', ''-device'', ''intel-hda'',
      ''-device'', ''hda-duplex,audiodev=audio0'', ''-netdev'',
      ''user,id=net0'', ''-device'', ''virtio-net-pci,netdev=net0'',
      ''-device'', ''qemu-xhci,id=xhci'', ''-device'', ''usb-tablet'',
      ''-rtc'', ''base=localtime,clock=host,driftfix=slew'', ''-boot'',
      ''order=c,menu=on'', ''-machine'', ''type=q35,accel=kvm''] \<and>
   list_all (\<lambda>arg. \<not> contains arg ''mac='')
     (case buildQEMUCommand env_plain nat_started of Inl a \<Rightarrow> [] | Inr r \<Rightarrow> fst r)"
  by code_simp

text \<open>
  C9: the boot-order argument of the built invocation depends only on whether there is
  an ISO. The invocation ends with \<^verbatim>\<open>-boot\<close>, the order, and the machine type; the order
  is \<^verbatim>\<open>dc\<close> (optical drive, then disk) when at least one ISO is present and \<^verbatim>\<open>c\<close> (disk
  only) otherwise.
\<close>

theorem boot_order_by_iso:
  assumes "buildQEMUCommand e w = Inr (cmd, w')"
  shows "drop (length cmd - 4) cmd =
           [''-boot'', if isoFiles w \<noteq> [] then ''order=dc,menu=on'' else ''order=c,menu=on'',
            ''-machine'', ''type=q35,accel=kvm'']"
proof -
  from buildQEMUCommand_shape(1) [OF assms] obtain mid cam where
    c: "cmd = [''qemu-system-x86_64'', ''-enable-kvm'', ''-cpu'', cpuModel w,
                  ''-smp'', to_string (cpuCores w), ''-m'', to_string (ramGB w) @ ''G'',
                  ''-vga'', ''virtio'', ''-display'']
                 @ mid
                 @ (if useBridge w
                    then [''-netdev'', ''bridge,id=net0,br='' @ bridgeInterface w,
                          ''-device'', ''virtio-net-pci,netdev=net0,mac=52:54:00:12:34:56'']
                    else [''-netdev'', ''user,id=net0'', ''-device'', ''virtio-net-pci,netdev=net0''])
                 @ [''-device'', ''qemu-xhci,id=xhci'', ''-device'', ''usb-tablet'']
                 @ cam
                 @ [''-rtc'', ''base=localtime,clock=host,driftfix=slew'',
                    ''-boot'', if isoFiles w \<noteq> [] then ''order=dc,menu=on'' else ''order=c,menu=on'',
                    ''-machine'', ''type=q35,accel=kvm'']"
    by blast
  define pre where "pre = [''qemu-system-x86_64'', ''-enable-kvm'', ''-cpu'', cpuModel w,
                  ''-smp'', to_string (cpuCores w), ''-m'', to_string (ramGB w) @ ''G'',
                  ''-vga'', ''virtio'', ''-display'']
                 @ mid
                 @ (if useBridge w
                    then [''-netdev'', ''bridge,id=net0,br='' @ bridgeInterface w,
                          ''-device'', ''virtio-net-pci,netdev=net0,mac=52:54:00:12:34:56'']
                    else [''-netdev'', ''user,id=net0'', ''-device'', ''virtio-net-pci,netdev=net0''])
                 @ [''-device'', ''qemu-xhci,id=xhci'', ''-device'', ''usb-tablet'']
                 @ cam
                 @ [''-rtc'', ''base=localtime,clock=host,driftfix=slew'']"
  have c': "cmd = pre @ [''-boot'', if isoFiles w \<noteq> [] then ''order=dc,menu=on'' else ''order=c,menu=on'',
                    ''-machine'', ''type=q35,accel=kvm'']"
    unfolding pre_def by (subst c) simp
  show ?thesis unfolding c' by simp
qed

theorem boot_order_by_iso_witness:
  "\<exists>w'. buildQEMUCommand env_plain disk_started = Inr (plain_cmd, w') \<and>
        isoFiles disk_started = [] \<and>
        drop (length plain_cmd - 4) plain_cmd =
          [''-boot'', ''order=c,menu=on'', ''-machine'', ''type=q35,accel=kvm'']"
proof -
  from build_plain obtain w' where b: "buildQEMUCommand env_plain disk_started = Inr (plain_cmd, w')" ..
  have i: "isoFiles disk_started = []" by (simp add: disk_started_def ColdVM_init_def)
  have "drop (length plain_cmd - 4) plain_cmd =
          [''-boot'', ''order=c,menu=on'', ''-machine'', ''type=q35,accel=kvm'']"
    using boot_order_by_iso [OF b] i by simp
  with b i show ?thesis by (intro exI conjI)
qed

text \<open>
  C10: the constructor sets 4 GB of RAM and an invocation built from an object with that
  default carries the memory argument \<^verbatim>\<open>-m 4G\<close>, while the help text advertises
  \<^verbatim>\<open>6 GB RAM\<close> as the default: the two disagree.
\<close>

theorem default_ram_disagrees:
  assumes "ramGB w = ramGB ColdVM_init" and "buildQEMUCommand e w = Inr (cmd, w')"
  shows "ramGB ColdVM_init = 4 \<and> take 2 (drop 6 cmd) = [''-m'', ''4G''] \<and>
         (''  - 6 GB RAM'' @ newline) \<in> set (help_text argv0)"
proof -
  have r: "ramGB w = 4" using assms(1) by (simp add: ColdVM_init_def)
  have t: "to_string 4 = ''4''" by (simp add: to_string_def nat_to_string.simps)
  from buildQEMUCommand_shape(1) [OF assms(2)] obtain rest where
    "cmd = [''qemu-system-x86_64'', ''-enable-kvm'', ''-cpu'', cpuModel w,
                  ''-smp'', to_string (cpuCores w), ''-m'', to_string (ramGB w) @ ''G''] @ rest"
    by auto
  then have "take 2 (drop 6 cmd) = [''-m'', ''4G'']" using r t by simp
  moreover have "(''  - 6 GB RAM'' @ newline) \<in> set (help_text argv0)"
    by (simp add: help_text_def)
  ultimately show ?thesis by (simp add: ColdVM_init_def)
qed

theorem default_ram_disagrees_witness:
  "\<exists>w'. ramGB disk_started = ramGB ColdVM_init \<and>
        buildQEMUCommand env_plain disk_started = Inr (plain_cmd, w') \<and>
        ramGB ColdVM_init = 4 \<and> take 2 (drop 6 plain_cmd) = [''-m'', ''4G''] \<and>
        (''  - 6 GB RAM'' @ newline) \<in> set (help_text ''cold'')"
proof -
  from build_plain obtain w' where b: "buildQEMUCommand env_plain disk_started = Inr (plain_cmd, w')" ..
  have r: "ramGB disk_started = ramGB ColdVM_init" by (simp add: disk_started_def)
  from default_ram_disagrees [OF r b, of "''cold''"] r b show ?thesis by (intro exI conjI) simp_all
qed

text \<open>
  C5 holds of the specification and not of the code: the format is found by searching
  the whole path for \<^verbatim>\<open>.img\<close>, \<^verbatim>\<open>.raw\<close>, \<^verbatim>\<open>.vdi\<close>, \<^verbatim>\<open>.vmdk\<close> in that order, not by looking at
  its end. The scanner, which does look at the extension, accepts \<^verbatim>\<open>a.img.vdi\<close> as a VDI
  disk; the builder then attaches it as \<^verbatim>\<open>raw\<close>.
\<close>

theorem disk_format_substring_bug:
  "fst (findAllDisks dir_img_vdi ColdVM_init) = [''./devices/disk/a.img.vdi''] \<and>
   extension ''a.img.vdi'' = ''.vdi'' \<and>
   disk_format ''./devices/disk/a.img.vdi'' = ''raw''"
  by code_simp

text \<open>
  C7 holds of the specification and not of the code: on a camera line cut short after
  \<^verbatim>\<open>ID\<close>, \<^verbatim>\<open>ids.substr(5, 4)\<close> throws \<^verbatim>\<open>std::out_of_range\<close>, which nothing catches; the
  build does not return and the process is terminated.
\<close>

theorem camera_probe_throws:
  "camera_loop (''Camera ID 12'' @ newline) = Thrown \<and>
   map_sum fst fst (buildQEMUCommand env_truncated_lsusb disk_started) = Inl OutOfRange \<and>
   fst (main fuel env_truncated_lsusb ''cold'' []) = Some (Aborted OutOfRange)"
  by code_simp

subsection \<open>The default disk\<close>




subsection \<open>Launch\<close>

lemma quiet_calm: "quiet w w' \<Longrightarrow> calm w w'"
  by (simp add: calm_def quiet_fields quiet_process)

lemma calm_trans: "calm w w' \<Longrightarrow> calm w' w'' \<Longrightarrow> calm w w''"
  by (simp add: calm_def)

lemma process_events_simps:
  "process_events [] = []"
  "process_events (ev # t) = (if is_process ev then ev # process_events t else process_events t)"
  "process_events (t @ u) = process_events t @ process_events u"
  by (simp_all add: process_events_def)

lemmas say_defs = log_def warning_def debug_def error_def success_def

lemma startQEMU_summary:
  assumes "startQEMU e w = Inr (ok, w')"
  shows "fork_qemu e \<noteq> 0 \<and> ok = (0 < fork_qemu e) \<and>
         qemuPid w' = (if ok then fork_qemu e else qemuPid w) \<and>
         websockifyPid w' = websockifyPid w \<and> useVNC w' = useVNC w \<and>
         noVNCPath w' = noVNCPath w \<and> diskFiles w' = diskFiles w \<and> isoFiles w' = isoFiles w \<and>
         process_events (trace w') = process_events (trace w) @ [Fork (fork_qemu e)]"
proof (cases "buildQEMUCommand e (log ''Starting QEMU virtual machine...'' w)")
  case (Inl a)
  with assms show ?thesis by (simp add: startQEMU_def Let_def)
next
  case (Inr r)
  obtain cmd w2 where r: "r = (cmd, w2)" by (cases r)
  have b: "buildQEMUCommand e (log ''Starting QEMU virtual machine...'' w) = Inr (cmd, w2)"
    using Inr r by simp
  have "quiet w w2"
    by (rule quiet_trans [OF _ buildQEMUCommand_shape(2) [OF b]]) (simp add: quiet_intros)
  then have q: "quiet w (debug (concat (map (\<lambda>arg. arg @ '' '') cmd)) (debug ''QEMU Command:'' w2))"
    by (simp add: quiet_intros)
  define v where "v = debug (concat (map (\<lambda>arg. arg @ '' '') cmd)) (debug ''QEMU Command:'' w2)"
  have s: "startQEMU e w =
             (if fork_qemu e = 0 then Inl (ChildExec cmd, emit (Fork (fork_qemu e)) v)
              else if fork_qemu e > 0
              then Inr (True, emit (Sleep 3) ((emit (Fork (fork_qemu e)) v)\<lparr>qemuPid := fork_qemu e\<rparr>))
              else Inr (False, error ''Failed to fork QEMU process!'' (emit (Fork (fork_qemu e)) v)))"
    by (simp add: startQEMU_def b v_def Let_def)
  from q have qv: "quiet w v" by (simp add: v_def)
  show ?thesis
    using assms quiet_fields [OF qv] quiet_process [OF qv] unfolding s
    by (auto simp: emit_def error_def process_events_simps split: if_splits)
qed

lemma startWebsockify_summary:
  assumes "startWebsockify e w = Inr (ok, w')" and "useVNC w"
  shows "qemuPid w' = qemuPid w \<and> diskFiles w' = diskFiles w \<and> isoFiles w' = isoFiles w \<and>
         (if \<not> path_exists e (noVNCPath w)
          then \<not> ok \<and> websockifyPid w' = websockifyPid w \<and>
               process_events (trace w') = process_events (trace w)
          else fork_websockify e \<noteq> 0 \<and> ok = (0 < fork_websockify e) \<and>
               websockifyPid w' = (if ok then fork_websockify e else websockifyPid w) \<and>
               process_events (trace w') = process_events (trace w) @ [Fork (fork_websockify e)])"
  using assms
  by (auto simp: startWebsockify_def Let_def say_defs emit_def process_events_simps split: if_splits)

lemma cleanup_summary:
  "qemuPid (cleanup w) = qemuPid w \<and> websockifyPid (cleanup w) = websockifyPid w \<and>
   diskFiles (cleanup w) = diskFiles w \<and> isoFiles (cleanup w) = isoFiles w \<and>
   process_events (trace (cleanup w)) =
     process_events (trace w)
       @ (if qemuPid w \<noteq> - 1 then [Kill (qemuPid w) SIGTERM, Waitpid (qemuPid w)] else [])
       @ (if websockifyPid w \<noteq> - 1
          then [Kill (websockifyPid w) SIGTERM, Waitpid (websockifyPid w)] else [])"
  by (simp add: cleanup_def Let_def say_defs emit_def process_events_simps)


lemma boot_launch_summary:
  assumes b: "boot_launch e w = Inr (ok, w')"
  shows "diskFiles w' = diskFiles w \<and> isoFiles w' = isoFiles w \<and> fork_qemu e \<noteq> 0 \<and>
         (if fork_qemu e < 0
          then \<not> ok \<and> qemuPid w' = qemuPid w \<and> websockifyPid w' = websockifyPid w \<and>
               process_events (trace w') = process_events (trace w) @ [Fork (fork_qemu e)]
          else qemuPid w' = fork_qemu e \<and>
               (if \<not> useVNC w
                then ok \<and> websockifyPid w' = websockifyPid w \<and>
                     process_events (trace w') = process_events (trace w) @ [Fork (fork_qemu e)]
                else if path_exists e (noVNCPath w) \<and> 0 < fork_websockify e
                then ok \<and> websockifyPid w' = fork_websockify e \<and>
                     process_events (trace w') =
                       process_events (trace w) @ [Fork (fork_qemu e), Fork (fork_websockify e)]
                else \<not> ok \<and> websockifyPid w' = websockifyPid w \<and>
                     process_events (trace w') =
                       process_events (trace w) @ [Fork (fork_qemu e)]
                         @ (if path_exists e (noVNCPath w) then [Fork (fork_websockify e)] else [])
                         @ [Kill (fork_qemu e) SIGTERM, Waitpid (fork_qemu e)]
                         @ (if websockifyPid w \<noteq> - 1
                            then [Kill (websockifyPid w) SIGTERM, Waitpid (websockifyPid w)]
                            else [])))"
proof -
  define w3 where
    "w3 = (let w1 = printConfiguration e (emit (Print newline) w);
               w2 = (if isoFiles w1 \<noteq> [] \<and> diskFiles w1 \<noteq> []
                     then log ''Boot Mode: ISO Installation with persistent disk(s)'' w1
                     else if isoFiles w1 \<noteq> []
                     then log ''Boot Mode: Live ISO (no persistent storage)'' w1
                     else log ''Boot Mode: Disk boot'' w1)
           in emit (Print newline) (log ''Starting virtual machine...'' (emit (Print newline) w2)))"
  have q3: "quiet w w3"
  proof -
    have "quiet w (printConfiguration e (emit (Print newline) w))"
      by (rule quiet_trans [OF _ quiet_printConfiguration]) (simp add: quiet_intros)
    then show ?thesis by (simp add: w3_def Let_def quiet_intros)
  qed
  obtain started w4 where s: "startQEMU e w3 = Inr (started, w4)"
    using b unfolding boot_launch_def w3_def Let_def
    by (cases "startQEMU e w3") (auto simp: w3_def Let_def)
  note s4 = startQEMU_summary [OF s]
  note f3 = quiet_fields [OF q3] quiet_process [OF q3]
  show ?thesis
  proof (cases started)
    case False
    have "boot_launch e w = Inr (False, error ''Failed to start QEMU!'' w4)"
      using s False by (simp add: boot_launch_def Let_def w3_def)
    with b have "\<not> ok" and "w' = error ''Failed to start QEMU!'' w4" by simp_all
    with s4 f3 False show ?thesis
      by (simp add: error_def emit_def process_events_simps)
  next
    case True
    define w5 where "w5 = success ''QEMU started successfully!'' w4"
    have f5: "qemuPid w5 = fork_qemu e" "websockifyPid w5 = websockifyPid w" "useVNC w5 = useVNC w"
      "noVNCPath w5 = noVNCPath w" "diskFiles w5 = diskFiles w" "isoFiles w5 = isoFiles w"
      "process_events (trace w5) = process_events (trace w) @ [Fork (fork_qemu e)]"
      "0 < fork_qemu e"
      using s4 f3 True by (simp_all add: w5_def success_def emit_def process_events_simps)
    show ?thesis
    proof (cases "useVNC w")
      case False
      have "boot_launch e w =
              Inr (True, emit (Print newline) (log ''Press Ctrl+C to shutdown the VM''
                           (emit (Print newline) (success ''VM started in local display mode!'' w5))))"
        using s True False f5(3) by (simp add: boot_launch_def Let_def w3_def w5_def)
      with b have "ok" and "w' = emit (Print newline) (log ''Press Ctrl+C to shutdown the VM''
                           (emit (Print newline) (success ''VM started in local display mode!'' w5)))"
        by simp_all
      with f5 False show ?thesis
        by (simp add: say_defs emit_def process_events_simps)
    next
      case vnc: True
      obtain proxied w6 where p: "startWebsockify e w5 = Inr (proxied, w6)"
        using b s True vnc f5(3)
        by (cases "startWebsockify e w5") (auto simp: boot_launch_def Let_def w3_def w5_def)
      have v5: "useVNC w5" using vnc f5(3) by simp
      note s6 = startWebsockify_summary [OF p v5]
      show ?thesis
      proof (cases proxied)
        case False
        have "boot_launch e w = Inr (False, cleanup w6)"
          using s True vnc f5(3) p False by (simp add: boot_launch_def Let_def w3_def w5_def)
        with b have r: "\<not> ok" "w' = cleanup w6" by simp_all
        have q6: "qemuPid w6 \<noteq> - 1" using s6 f5 by simp
        show ?thesis
          using r s6 f5 False vnc q6 cleanup_summary [of w6]
          by (auto simp: split: if_splits)
      next
        case pr: True
        have "boot_launch e w =
                Inr (True, emit (Print newline) (log ''Press Ctrl+C to shutdown the VM''
                       (emit (Print newline) (emit PrintReady (emit (Print newline)
                          (success ''Websockify started successfully!'' w6))))))"
          using s True vnc f5(3) p pr by (simp add: boot_launch_def Let_def w3_def w5_def)
        with b have r: "ok" "w' = emit (Print newline) (log ''Press Ctrl+C to shutdown the VM''
                       (emit (Print newline) (emit PrintReady (emit (Print newline)
                          (success ''Websockify started successfully!'' w6)))))"
          by simp_all
        show ?thesis
          using r s6 f5 pr vnc
          by (auto simp: say_defs emit_def process_events_simps split: if_splits)
      qed
    qed
  qed
qed


lemma calm_quiet: "calm w v \<Longrightarrow> quiet v v' \<Longrightarrow> calm w v'"
  by (rule calm_trans [OF _ quiet_calm])

lemma calm_update:
  "calm w v \<Longrightarrow> calm w (v\<lparr>diskFiles := ds\<rparr>)"
  "calm w v \<Longrightarrow> calm w (v\<lparr>isoFiles := is\<rparr>)"
  "calm w v \<Longrightarrow> calm w (v\<lparr>useBridge := b\<rparr>)"
  by (simp_all add: calm_def)

lemma calm_checkBridgeInterface: "calm w (snd (checkBridgeInterface e w))"
  by (simp add: checkBridgeInterface_def Let_def calm_def say_defs emit_def
      process_events_simps)

lemma boot_media_cases:
  assumes b: "boot_media e w = Inr (ok, w')"
  shows "\<exists>v. calm w v \<and>
              ((diskFiles v = [] \<and> isoFiles v = [] \<and> \<not> ok \<and> quiet v w') \<or>
               ((diskFiles v \<noteq> [] \<or> isoFiles v \<noteq> []) \<and> boot_launch e v = Inr (ok, w')))"
proof -
  define w1 where "w1 = (snd (findAllDisks (disk_dir e) w))\<lparr>diskFiles := fst (findAllDisks (disk_dir e) w)\<rparr>"
  define w2 where "w2 = (snd (findAllISOs (rom_dir e) w1))\<lparr>isoFiles := fst (findAllISOs (rom_dir e) w1)\<rparr>"
  define r where "r = createDefaultDisk e (disk_dir e) (warning ''No disk images found!'' w2)"
  define w3 where
    "w3 = (if diskFiles w2 = []
           then (if fst r
                 then (snd (findAllDisks (fst (snd r)) (snd (snd r))))
                        \<lparr>diskFiles := fst (findAllDisks (fst (snd r)) (snd (snd r)))\<rparr>
                 else snd (snd r))
           else w2)"
  have c1: "calm w w1"
    unfolding w1_def by (intro calm_update quiet_calm quiet_findAllDisks)
  have c2: "calm w w2"
    unfolding w2_def by (intro calm_update calm_quiet [OF c1] quiet_findAllISOs)
  have cr: "calm w (snd (snd r))"
    unfolding r_def
    by (rule calm_quiet [OF c2], rule quiet_trans [OF _ quiet_createDefaultDisk])
       (simp add: quiet_intros)
  have c3: "calm w w3"
  proof -
    have "calm w ((snd (findAllDisks st (snd (snd r))))\<lparr>diskFiles := ds\<rparr>)" for st ds
      by (rule calm_update, rule calm_quiet [OF cr quiet_findAllDisks])
    then show ?thesis unfolding w3_def using c2 cr by simp
  qed
  have eq: "boot_media e w =
              (if diskFiles w3 = [] \<and> isoFiles w3 = []
               then Inr (False,
                         error ''Please add disk images to ./devices/disk/ or ISOs to ./devices/rom/''
                           (error ''No bootable media available!'' w3))
               else boot_launch e w3)"
    unfolding boot_media_def w3_def r_def w2_def w1_def Let_def ..
  show ?thesis
  proof (cases "diskFiles w3 = [] \<and> isoFiles w3 = []")
    case True
    with b eq have "\<not> ok" and "quiet w3 w'"
      by (auto simp: quiet_intros)
    with True c3 show ?thesis by blast
  next
    case False
    with b eq have "boot_launch e w3 = Inr (ok, w')" by simp
    with False c3 show ?thesis by blast
  qed
qed

lemma boot_cases:
  assumes b: "boot e w = Inr (ok, w')"
  shows "(\<not> ok \<and> quiet w w') \<or> (\<exists>v. calm w v \<and> boot_media e v = Inr (ok, w'))"
proof -
  define w3 where
    "w3 = debug ''Checking system requirements...''
            (createDirectories e (log ''Initializing Cold VM...'' (printHeader w)))"
  define q where "q = checkCommand e ''qemu-system-x86_64'' ''QEMU'' w3"
  define w4 where "w4 = snd (checkFile e (firmwarePath (snd q)) ''OVMF Firmware'' (snd q))"
  define c where "c = checkCommand e ''websockify'' ''Websockify'' w4"
  define w5 where "w5 = (if useVNC w4 then snd (checkFile e (noVNCPath (snd c)) ''noVNC'' (snd c)) else w4)"
  define w6 where "w6 = (if useBridge w5 then snd (checkBridgeInterface e w5) else w5)"
  have q3: "quiet w w3"
    unfolding w3_def printHeader_def
    by (intro quiet_say, rule quiet_trans [OF _ quiet_createDirectories]) (simp add: quiet_intros)
  have qq: "quiet w (snd q)"
    unfolding q_def by (rule quiet_trans [OF q3 quiet_checkCommand])
  have q4: "quiet w w4"
    unfolding w4_def by (rule quiet_trans [OF qq quiet_checkFile])
  have qc: "quiet w (snd c)"
    unfolding c_def by (rule quiet_trans [OF q4 quiet_checkCommand])
  have q5: "quiet w w5"
    unfolding w5_def using q4 quiet_trans [OF qc quiet_checkFile] by simp
  have c6: "calm w w6"
    unfolding w6_def using quiet_calm [OF q5] calm_trans [OF quiet_calm [OF q5] calm_checkBridgeInterface]
    by simp
  have eq: "boot e w =
              (if \<not> fst q then Inr (False, error ''QEMU is required but not installed!'' (snd q))
               else if useVNC w4 \<and> \<not> fst c
               then Inr (False, error ''Websockify is required for VNC mode!'' (snd c))
               else boot_media e w6)"
    unfolding boot_def w6_def w5_def c_def w4_def q_def w3_def Let_def ..
  show ?thesis
  proof (cases "\<not> fst q")
    case True
    with b eq have "\<not> ok" and "w' = error ''QEMU is required but not installed!'' (snd q)" by simp_all
    with qq show ?thesis by (simp add: quiet_intros)
  next
    case fq: False
    show ?thesis
    proof (cases "useVNC w4 \<and> \<not> fst c")
      case True
      with b eq fq have "\<not> ok" and "w' = error ''Websockify is required for VNC mode!'' (snd c)"
        by simp_all
      with qc show ?thesis by (simp add: quiet_intros)
    next
      case False
      with b eq fq have "boot_media e w6 = Inr (ok, w')" by simp
      with c6 show ?thesis by blast
    qed
  qed
qed

lemma boot_summary:
  assumes b: "boot e w = Inr (ok, w')"
  shows "(\<not> ok \<and> calm w w' \<and> (diskFiles w' = diskFiles w \<and> isoFiles w' = isoFiles w
                                 \<or> diskFiles w' = [] \<and> isoFiles w' = []))
         \<or> (\<exists>v. calm w v \<and> (diskFiles v \<noteq> [] \<or> isoFiles v \<noteq> []) \<and> boot_launch e v = Inr (ok, w'))"
proof -
  from boot_cases [OF b] show ?thesis
  proof
    assume "\<not> ok \<and> quiet w w'"
    then show ?thesis using quiet_calm [of w w'] quiet_fields [of w w'] by simp
  next
    assume "\<exists>v. calm w v \<and> boot_media e v = Inr (ok, w')"
    then obtain v where cv: "calm w v" and m: "boot_media e v = Inr (ok, w')" by blast
    from boot_media_cases [OF m] obtain u where cu: "calm v u"
      and d: "(diskFiles u = [] \<and> isoFiles u = [] \<and> \<not> ok \<and> quiet u w') \<or>
              ((diskFiles u \<noteq> [] \<or> isoFiles u \<noteq> []) \<and> boot_launch e u = Inr (ok, w'))"
      by blast
    have cwu: "calm w u" by (rule calm_trans [OF cv cu])
    from d show ?thesis
    proof
      assume a: "diskFiles u = [] \<and> isoFiles u = [] \<and> \<not> ok \<and> quiet u w'"
      then have "calm w w'" using calm_quiet [OF cwu] by simp
      moreover have "diskFiles w' = [] \<and> isoFiles w' = []"
        using a quiet_fields [of u w'] by simp
      ultimately show ?thesis using a by simp
    next
      assume "(diskFiles u \<noteq> [] \<or> isoFiles u \<noteq> []) \<and> boot_launch e u = Inr (ok, w')"
      with cwu show ?thesis by blast
    qed
  qed
qed

lemma boot_proxy_fork_fails:
  "\<exists>w'. boot env_proxy_fork_fails main_object = Inr (False, w') \<and> qemuPid w' = 4001"
proof -
  have "map_sum fst (\<lambda>r. (fst r, qemuPid (snd r))) (boot env_proxy_fork_fails main_object)
          = Inr (False, 4001)"
    by code_simp
  then show ?thesis
    by (cases "boot env_proxy_fork_fails main_object") auto
qed


lemma main_object_fresh:
  "qemuPid main_object = - 1" "websockifyPid main_object = - 1" "useVNC main_object"
  "noVNCPath main_object = ''./libraries/noVNC''" "process_events (trace main_object) = []"
  by (simp_all add: main_object_def ColdVM_init_def emit_def process_events_simps)

text \<open>
  C3: in remote display mode, on an object as constructed, if \<open>boot\<close> returns with the
  hypervisor child spawned (its process id recorded) and the spawn of the display proxy
  fails, by the missing noVNC directory or by \<^verbatim>\<open>fork\<close> failing, then \<open>boot\<close> reports
  failure only after the hypervisor has been signalled and waited for, and the proxy is
  never running: no process id is recorded for it, and the events touching a child
  are exactly the fork of the hypervisor, the failed fork of the proxy if it was tried,
  and the signal to and the wait for the hypervisor.
\<close>

theorem proxy_failure_tears_down_hypervisor:
  assumes fresh: "qemuPid w = - 1" "websockifyPid w = - 1"
    and remote: "useVNC w"
    and returns: "boot e w = Inr (ok, w')"
    and spawned: "qemuPid w' \<noteq> - 1"
    and fails: "\<not> path_exists e (noVNCPath w) \<or> fork_websockify e < 0"
  shows "\<not> ok \<and> 0 < fork_qemu e \<and> qemuPid w' = fork_qemu e \<and> websockifyPid w' = - 1 \<and>
         process_events (trace w') =
           process_events (trace w) @ [Fork (fork_qemu e)]
             @ (if path_exists e (noVNCPath w) then [Fork (fork_websockify e)] else [])
             @ [Kill (fork_qemu e) SIGTERM, Waitpid (fork_qemu e)]"
proof -
  from boot_summary [OF returns] show ?thesis
  proof
    assume "\<not> ok \<and> calm w w' \<and> (diskFiles w' = diskFiles w \<and> isoFiles w' = isoFiles w
                                 \<or> diskFiles w' = [] \<and> isoFiles w' = [])"
    then have "qemuPid w' = qemuPid w" by (simp add: calm_def)
    with fresh spawned show ?thesis by simp
  next
    assume "\<exists>v. calm w v \<and> (diskFiles v \<noteq> [] \<or> isoFiles v \<noteq> []) \<and> boot_launch e v = Inr (ok, w')"
    then obtain v where cv: "calm w v" and l: "boot_launch e v = Inr (ok, w')" by blast
    have v: "qemuPid v = - 1" "websockifyPid v = - 1" "useVNC v" "noVNCPath v = noVNCPath w"
      "process_events (trace v) = process_events (trace w)"
      using cv fresh remote by (simp_all add: calm_def)
    show ?thesis
    proof (cases "fork_qemu e < 0")
      case True
      with boot_launch_summary [OF l] v spawned show ?thesis by simp
    next
      case False
      with boot_launch_summary [OF l] v fails show ?thesis by auto
    qed
  qed
qed

theorem proxy_failure_tears_down_hypervisor_witness:
  "\<exists>ok w'. qemuPid main_object = - 1 \<and> websockifyPid main_object = - 1 \<and> useVNC main_object \<and>
     boot env_proxy_fork_fails main_object = Inr (ok, w') \<and> qemuPid w' \<noteq> - 1 \<and>
     fork_websockify env_proxy_fork_fails < 0 \<and>
     \<not> ok \<and> qemuPid w' = 4001 \<and> websockifyPid w' = - 1 \<and>
     process_events (trace w') = [Fork 4001, Fork (- 1), Kill 4001 15, Waitpid 4001]"
proof -
  from boot_proxy_fork_fails obtain w' where
    b: "boot env_proxy_fork_fails main_object = Inr (False, w')" and q: "qemuPid w' = 4001"
    by blast
  have s: "qemuPid w' \<noteq> - 1" using q by simp
  have f: "fork_websockify env_proxy_fork_fails < 0"
    by (simp add: env_proxy_fork_fails_def env_plain_def)
  then have f': "\<not> path_exists env_proxy_fork_fails (noVNCPath main_object)
                 \<or> fork_websockify env_proxy_fork_fails < 0" by simp
  have c: "websockifyPid w' = - 1 \<and>
           process_events (trace w') = [Fork 4001, Fork (- 1), Kill 4001 15, Waitpid 4001]"
    using proxy_failure_tears_down_hypervisor
            [OF main_object_fresh(1) main_object_fresh(2) main_object_fresh(3) b s f']
    by (simp add: main_object_fresh env_proxy_fork_fails_def env_plain_def SIGTERM_def)
  show ?thesis
    using main_object_fresh(1,2,3) b s f q c
    by (intro exI [of _ False] exI [of _ w']) simp
qed



text \<open>After a successful \<open>boot\<close> the process stays in its idle loop, whatever the fuel.\<close>

lemma idle_loop_runs: "fst (idle_loop n w) = None"
  by (induction n arbitrary: w) simp_all

end
